theory Spec2Isabelle
  imports Complex_Main "HOL-Library.Sublist" "HOL-Library.Multiset"
begin

section \<open>BINDetect: the controller \<open>run_bindetect\<close>\<close>

text \<open>
  A shallow embedding of \<^verbatim>\<open>tobias/footprinting/BINDetect.py\<close>, function
  \<^verbatim>\<open>run_bindetect\<close>. Python floats are modelled as real numbers, so nan and the
  infinities have no counterpart here. Calls into numpy, scikit-learn, scipy and pandas
  are either written out (where their meaning on real numbers is a formula) or taken
  from a record of library functions (the fitting and optimisation routines).
\<close>

subsection \<open>How the run can end\<close>

text \<open>
  \<open>SysExit msg\<close> is \<^verbatim>\<open>sys.exit(msg)\<close>, the only way the controller itself reports a
  fatal error. \<open>Uncaught w\<close> is an exception that the controller does not catch, raised
  by the call or the lookup named \<open>w\<close>.
\<close>

datatype error = SysExit string | Uncaught string

subsection \<open>Python and numpy primitives\<close>

text \<open>\<^verbatim>\<open>np.isclose(a, b)\<close> with its default tolerances rtol = 1e-05 and atol = 1e-08.\<close>

definition np_isclose :: "real \<Rightarrow> real \<Rightarrow> bool" where
  "np_isclose a b = (\<bar>a - b\<bar> \<le> 1 / 10 ^ 8 + (1 / 10 ^ 5) * \<bar>b\<bar>)"

text \<open>\<^verbatim>\<open>a[mask]\<close>: the entries of \<open>a\<close> where the boolean mask is True.\<close>

definition boolean_index :: "'a list \<Rightarrow> bool list \<Rightarrow> 'a list" where
  "boolean_index a included = map fst (filter snd (zip a included))"

text \<open>
  \<^verbatim>\<open>np.mean\<close> of a non-empty sequence. (numpy answers nan for an empty one; the
  quotient below is 0 there, so statements about it assume at least one entry.)
\<close>

definition np_mean :: "real list \<Rightarrow> real" where
  "np_mean xs = sum_list xs / real (length xs)"

text \<open>Rounding to the nearest integer, ties to the even neighbour.\<close>

definition rint :: "real \<Rightarrow> int" where
  "rint x =
     (let f = \<lfloor>x\<rfloor>; d = x - of_int f
      in if d < 1 / 2 then f else if 1 / 2 < d then f + 1 else if even f then f else f + 1)"

text \<open>\<^verbatim>\<open>round(x, ndigits)\<close> on a float.\<close>

definition py_round :: "real \<Rightarrow> nat \<Rightarrow> real" where
  "py_round x ndigits = of_int (rint (x * 10 ^ ndigits)) / 10 ^ ndigits"

text \<open>\<^verbatim>\<open>np.argmax\<close>: the index of the first maximum; it raises on an empty array.\<close>

fun argmax_from :: "real list \<Rightarrow> nat \<Rightarrow> real \<Rightarrow> nat \<Rightarrow> nat" where
  "argmax_from [] i best besti = besti"
| "argmax_from (x # xs) i best besti =
     (if best < x then argmax_from xs (Suc i) x i else argmax_from xs (Suc i) best besti)"

definition np_argmax :: "real list \<Rightarrow> nat option" where
  "np_argmax xs = (case xs of [] \<Rightarrow> None | x # rest \<Rightarrow> Some (argmax_from rest 1 x 0))"

text \<open>\<^verbatim>\<open>itertools.combinations(xs, 2)\<close> and \<^verbatim>\<open>itertools.product(xs, ys)\<close>.\<close>

fun combinations2 :: "'a list \<Rightarrow> ('a \<times> 'a) list" where
  "combinations2 [] = []"
| "combinations2 (x # xs) = map (Pair x) xs @ combinations2 xs"

definition itertools_product :: "'a list \<Rightarrow> 'b list \<Rightarrow> ('a \<times> 'b) list" where
  "itertools_product xs ys = concat (map (\<lambda>x. map (Pair x) ys) xs)"

text \<open>
  \<^verbatim>\<open>list(set(xs))\<close>. A set keeps one copy of each element and is iterated in an order
  fixed by the elements' hashes; the hash of a string is salted anew for every
  interpreter process. The hash is therefore a parameter \<open>h\<close> of the model, and the
  listing is the duplicate-free list ordered by it.
\<close>

definition list_of_set :: "('a \<Rightarrow> nat) \<Rightarrow> 'a list \<Rightarrow> 'a list" where
  "list_of_set h xs = sort_key h (remdups xs)"

text \<open>
  \<^verbatim>\<open>xs[i::k]\<close> for a step \<open>k \<ge> 1\<close>: the entries at positions \<open>i\<close>, \<open>i + k\<close>,
  \<open>i + 2k\<close>, ... below the length.
\<close>

definition slice_from_step :: "'a list \<Rightarrow> nat \<Rightarrow> nat \<Rightarrow> 'a list" where
  "slice_from_step xs i k =
     map (\<lambda>j. xs ! j) (filter (\<lambda>j. i \<le> j \<and> (j - i) mod k = 0) [0..<length xs])"

subsection \<open>GC content and the background composition of the motifs\<close>

text \<open>
  \<^verbatim>\<open>gc_content_pool = pool.starmap(get_gc_content, itertools.product(peak_chunks, [args.genome]))\<close>
  \<^verbatim>\<open>gc_content = np.mean(gc_content_pool)\<close>
  \<^verbatim>\<open>bg = np.array([(1-args.gc)/2.0, args.gc/2.0, args.gc/2.0, (1-args.gc)/2.0])\<close>
  The helper \<^verbatim>\<open>get_gc_content\<close> (the GC fraction of the sequences of one chunk) is a
  parameter.
\<close>

definition gc_content_pool :: "('chunk \<Rightarrow> 'genome \<Rightarrow> real) \<Rightarrow> 'chunk list \<Rightarrow> 'genome \<Rightarrow> real list" where
  "gc_content_pool get_gc_content peak_chunks genome =
     map (\<lambda>(chunk, g). get_gc_content chunk g) (itertools_product peak_chunks [genome])"

definition gc_content :: "('chunk \<Rightarrow> 'genome \<Rightarrow> real) \<Rightarrow> 'chunk list \<Rightarrow> 'genome \<Rightarrow> real" where
  "gc_content get_gc_content peak_chunks genome =
     np_mean (gc_content_pool get_gc_content peak_chunks genome)"

definition bg :: "real \<Rightarrow> real list" where
  "bg gc = [(1 - gc) / 2, gc / 2, gc / 2, (1 - gc) / 2]"

subsection \<open>Writer queues\<close>

text \<open>
  \<^verbatim>\<open>writer_cores = 1\<close>
  \<^verbatim>\<open>TF_names_chunks = [motif_names_predict[i::writer_cores] for i in range(writer_cores)]\<close>
  Each chunk gets a fresh queue, appended to \<^verbatim>\<open>qs_list\<close>; a queue is identified here
  by its position in that list. The dictionary \<^verbatim>\<open>qs\<close> sends every name of the chunk
  to the chunk's queue.
\<close>

definition writer_cores :: nat where
  "writer_cores = 1"

definition TF_names_chunks :: "string list \<Rightarrow> nat \<Rightarrow> string list list" where
  "TF_names_chunks motif_names_predict k =
     map (\<lambda>i. slice_from_step motif_names_predict i k) [0..<k]"

fun assign_queues :: "nat \<Rightarrow> string list list \<Rightarrow> (string \<rightharpoonup> nat) \<Rightarrow> (string \<rightharpoonup> nat)" where
  "assign_queues q [] qs = qs"
| "assign_queues q (TF_names_sub # rest) qs =
     assign_queues (Suc q) rest (fold (\<lambda>TF m. m(TF \<mapsto> q)) TF_names_sub qs)"

definition writer_queues :: "string list \<Rightarrow> nat \<Rightarrow> (string \<rightharpoonup> nat)" where
  "writer_queues motif_names_predict k =
     assign_queues 0 (TF_names_chunks motif_names_predict k) Map.empty"

subsection \<open>The numeric libraries\<close>

text \<open>
  The routines of numpy, scikit-learn and scipy that fit or optimise are not part of the
  program; they are the fields of a record, so that every statement below holds for
  whatever these routines compute. A routine that validates its input and may raise
  returns an option, \<open>None\<close> standing for the exception. The type \<open>'g\<close> is the fitted
  \<^verbatim>\<open>GaussianMixture\<close> object. Data matrices are lists of rows.

  \<^item> \<open>percentile a q\<close> is \<^verbatim>\<open>np.percentile(a, [q])\<close>;
  \<^item> \<open>GaussianMixture_fit random_state n X\<close> is
    \<^verbatim>\<open>GaussianMixture(n_components=n, random_state=random_state).fit(X)\<close>
    (\<^verbatim>\<open>covariance_type="full"\<close>, which the second use spells out, is the default);
    without a seed, \<open>random_state = None\<close>, the fit draws from the random generator of
    the process, in the state it happens to be in;
  \<^item> \<open>gmm_bic g X\<close> is \<^verbatim>\<open>g.bic(X)\<close>;
  \<^item> \<open>gmm_means g\<close> is \<^verbatim>\<open>g.means_.flatten()\<close> and \<open>gmm_covariances g\<close> is
    \<^verbatim>\<open>g.covariances_\<close>, flattened;
  \<^item> \<open>lognorm_fit data f0 fscale\<close> is \<^verbatim>\<open>scipy.stats.lognorm.fit(data, f0=f0, fscale=fscale)\<close>,
    a triple (shape, loc, scale);
  \<^item> \<open>lognorm_ppf q params\<close> and \<open>lognorm_pdf x params\<close> are
    \<^verbatim>\<open>scipy.stats.lognorm.ppf(q, *params)\<close> and \<^verbatim>\<open>scipy.stats.lognorm.pdf(x, *params)\<close>;
  \<^item> \<open>fmin f x0\<close> is \<^verbatim>\<open>scipy.optimize.fmin(f, x0, disp=False)[0]\<close>.
\<close>

type_synonym lognorm_params = "real \<times> real \<times> real"

record 'g numlib =
  percentile :: "real list \<Rightarrow> real \<Rightarrow> real option"
  GaussianMixture_fit :: "nat option \<Rightarrow> nat \<Rightarrow> real list list \<Rightarrow> 'g option"
  gmm_bic :: "'g \<Rightarrow> real list list \<Rightarrow> real"
  gmm_means :: "'g \<Rightarrow> real list"
  gmm_covariances :: "'g \<Rightarrow> real list"
  lognorm_fit :: "real list \<Rightarrow> real \<Rightarrow> real \<Rightarrow> lognorm_params option"
  lognorm_ppf :: "real \<Rightarrow> lognorm_params \<Rightarrow> real"
  lognorm_pdf :: "real \<Rightarrow> lognorm_params \<Rightarrow> real"
  fmin :: "(real \<Rightarrow> real) \<Rightarrow> real \<Rightarrow> real"

text \<open>
  The fit as the program calls it, at both places:
  \<^verbatim>\<open>sklearn.mixture.GaussianMixture(n_components=n_components, random_state=1)\<close> and
  \<^verbatim>\<open>sklearn.mixture.GaussianMixture(n_components=n_components, covariance_type="full", random_state=1)\<close>,
  each followed by \<^verbatim>\<open>gmm.fit(X)\<close>.
\<close>

definition gmm_fit :: "'g numlib \<Rightarrow> nat \<Rightarrow> real list list \<Rightarrow> 'g option" where
  "gmm_fit L n_components X = GaussianMixture_fit L (Some 1) n_components X"

text \<open>
  Two processes see the same library when its routines agree, the fit of a mixture
  being compared only where it is given a seed: a fit without a seed may differ from
  one process to the other.
\<close>

definition agree_when_seeded :: "'g numlib \<Rightarrow> 'g numlib \<Rightarrow> bool" where
  "agree_when_seeded L1 L2 =
     (percentile L1 = percentile L2
      \<and> (\<forall>seed. GaussianMixture_fit L1 (Some seed) = GaussianMixture_fit L2 (Some seed))
      \<and> gmm_bic L1 = gmm_bic L2
      \<and> gmm_means L1 = gmm_means L2
      \<and> gmm_covariances L1 = gmm_covariances L2
      \<and> lognorm_fit L1 = lognorm_fit L2
      \<and> lognorm_ppf L1 = lognorm_ppf L2
      \<and> lognorm_pdf L1 = lognorm_pdf L2
      \<and> fmin L1 = fmin L2)"

subsection \<open>Selecting a mixture by BIC\<close>

text \<open>
  \<^verbatim>\<open>lowest_bic = np.inf\<close>
  \<^verbatim>\<open>for n_components in ...:\<close>
  \<^verbatim>\<open>    gmm = GaussianMixture(n_components=n_components, random_state=1); gmm.fit(X)\<close>
  \<^verbatim>\<open>    bic = gmm.bic(X)\<close>
  \<^verbatim>\<open>    if bic < lowest_bic: lowest_bic = bic; best_gmm = gmm\<close>
  The loop state is \<open>None\<close> while \<^verbatim>\<open>lowest_bic\<close> is still infinite, and the pair
  (\<^verbatim>\<open>lowest_bic\<close>, \<^verbatim>\<open>best_gmm\<close>) afterwards.
\<close>

fun bic_loop :: "'g numlib \<Rightarrow> real list list \<Rightarrow> nat list \<Rightarrow> (real \<times> 'g) option \<Rightarrow> error + (real \<times> 'g) option" where
  "bic_loop L X [] best = Inr best"
| "bic_loop L X (n_components # rest) best =
     (case gmm_fit L n_components X of
        None \<Rightarrow> Inl (Uncaught ''GaussianMixture.fit'')
      | Some gmm \<Rightarrow>
          (let bic = gmm_bic L gmm X
           in if (case best of None \<Rightarrow> True | Some (lowest_bic, best_gmm) \<Rightarrow> bic < lowest_bic)
              then bic_loop L X rest (Some (bic, gmm))
              else bic_loop L X rest best))"

definition best_gmm_of :: "error + (real \<times> 'g) option \<Rightarrow> error + 'g" where
  "best_gmm_of r =
     (case r of
        Inl e \<Rightarrow> Inl e
      | Inr None \<Rightarrow> Inl (Uncaught ''NameError'')
      | Inr (Some (lowest_bic, best_gmm)) \<Rightarrow> Inr best_gmm)"

subsection \<open>Threshold and pseudocount of one condition\<close>

text \<open>
  The body of the loop \<^verbatim>\<open>for bigwig in args.cond_names\<close> (score distributions),
  without its plotting: from the background signal of the condition to the pair
  (\<^verbatim>\<open>threshold\<close>, \<^verbatim>\<open>pseudo\<close>). \<open>fit_lognorm\<close> is the part up to \<^verbatim>\<open>log_params\<close>.
\<close>

definition fit_lognorm :: "'g numlib \<Rightarrow> real list \<Rightarrow> error + lognorm_params" where
  "fit_lognorm L signal =
     (let bg_values = filter (\<lambda>v. \<not> np_isclose v 0) signal
      in case percentile L bg_values 99 of
           None \<Rightarrow> Inl (Uncaught ''np.percentile'')
         | Some x_max \<Rightarrow>
      (case best_gmm_of (bic_loop L (map (\<lambda>v. [ln v]) bg_values) [1..<3] None) of
           Inl e \<Rightarrow> Inl e
         | Inr gmm \<Rightarrow>
      (let means = gmm_means L gmm;
           sds = map sqrt (gmm_covariances L gmm)
       in case np_argmax means of
            None \<Rightarrow> Inl (Uncaught ''np.argmax'')
          | Some chosen_i \<Rightarrow>
              if length sds \<le> chosen_i then Inl (Uncaught ''IndexError'')
              else (case lognorm_fit L (filter (\<lambda>v. v < x_max) bg_values)
                           (sds ! chosen_i) (exp (means ! chosen_i)) of
                      None \<Rightarrow> Inl (Uncaught ''lognorm.fit'')
                    | Some log_params \<Rightarrow> Inr log_params))))"

definition estimate_threshold :: "'g numlib \<Rightarrow> real \<Rightarrow> real list \<Rightarrow> error + (real \<times> real)" where
  "estimate_threshold L bound_thresh signal =
     (case fit_lognorm L signal of
        Inl e \<Rightarrow> Inl e
      | Inr log_params \<Rightarrow>
          (let threshold = py_round (lognorm_ppf L (1 - bound_thresh) log_params) 5;
               mode = fmin L (\<lambda>x. - lognorm_pdf L x log_params) 0;
               pseudo = mode / 2
           in Inr (threshold, pseudo)))"

subsection \<open>All conditions\<close>

text \<open>
  \<^verbatim>\<open>for bigwig in args.cond_names: background["signal"][bigwig] = np.array(background["signal"][bigwig])\<close>
  raises KeyError for a condition without background.
\<close>

fun check_background :: "(string \<rightharpoonup> real list) \<Rightarrow> string list \<Rightarrow> error + unit" where
  "check_background background_sig [] = Inr ()"
| "check_background background_sig (bigwig # rest) =
     (case background_sig bigwig of
        None \<Rightarrow> Inl (Uncaught ''KeyError'')
      | Some a \<Rightarrow> check_background background_sig rest)"

text \<open>
  The state of the loop over the conditions: the dictionary \<^verbatim>\<open>args.thresholds\<close>, the
  list \<^verbatim>\<open>pseudos\<close>, and the variable \<^verbatim>\<open>pseudo\<close>, unbound before the first pass.
\<close>

record threshold_state =
  thresholds :: "string \<rightharpoonup> real"
  pseudos :: "real list"
  pseudo_var :: "real option"

definition threshold_state0 :: threshold_state where
  "threshold_state0 = \<lparr>thresholds = Map.empty, pseudos = [], pseudo_var = None\<rparr>"

fun estimate_thresholds ::
  "'g numlib \<Rightarrow> real \<Rightarrow> (string \<rightharpoonup> real list) \<Rightarrow> string list \<Rightarrow> threshold_state \<Rightarrow> error + threshold_state" where
  "estimate_thresholds L bound_thresh background_sig [] st = Inr st"
| "estimate_thresholds L bound_thresh background_sig (bigwig # rest) st =
     (case background_sig bigwig of
        None \<Rightarrow> Inl (Uncaught ''KeyError'')
      | Some signal \<Rightarrow>
          (case estimate_threshold L bound_thresh signal of
             Inl e \<Rightarrow> Inl e
           | Inr (threshold, pseudo) \<Rightarrow>
               estimate_thresholds L bound_thresh background_sig rest
                 \<lparr>thresholds = (thresholds st)(bigwig \<mapsto> threshold),
                  pseudos = pseudos st @ [pseudo],
                  pseudo_var = Some pseudo\<rparr>))"

text \<open>
  \<^verbatim>\<open>if args.pseudo == None: args.pseudo = np.mean(pseudo)\<close>
  The argument of \<^verbatim>\<open>np.mean\<close> is the variable \<^verbatim>\<open>pseudo\<close>, a scalar, and the mean of a
  scalar is that scalar.
\<close>

definition estimate_pseudocount :: "real option \<Rightarrow> threshold_state \<Rightarrow> error + real" where
  "estimate_pseudocount args_pseudo st =
     (case args_pseudo of
        Some p \<Rightarrow> Inr p
      | None \<Rightarrow>
          (case pseudo_var st of
             None \<Rightarrow> Inl (Uncaught ''NameError'')
           | Some pseudo \<Rightarrow> Inr pseudo))"

subsection \<open>Null model of the fold changes of one pair of conditions\<close>

text \<open>
  The body of the loop \<^verbatim>\<open>for (bigwig1, bigwig2) in comparisons\<close>, without its plotting.
  Arrays of different lengths cannot be combined or indexed by the mask: numpy raises.
\<close>

definition zero_message :: "string \<Rightarrow> string \<Rightarrow> string" where
  "zero_message bigwig1 bigwig2 =
     ''ERROR: Bigwig values of conditions '' @ bigwig1 @ '' and '' @ bigwig2 @
     '' are equal or contain only zeroes - please check your input data.''"

definition log2fc_values :: "real \<Rightarrow> real list \<Rightarrow> real list \<Rightarrow> real list \<Rightarrow> real list list" where
  "log2fc_values pseudo scores1 scores2 gcs =
     (let included = map2 (\<lambda>a b. \<not> (np_isclose a 0 \<and> np_isclose b 0)) scores1 scores2;
          scores1' = boolean_index scores1 included;
          scores2' = boolean_index scores2 included;
          gcs' = boolean_index gcs included;
          log2fcs = map2 (\<lambda>a b. log 2 ((a + pseudo) / (b + pseudo))) scores1' scores2'
      in map2 (\<lambda>l g. [l, g]) log2fcs gcs')"

definition fit_null_model ::
  "'g numlib \<Rightarrow> real \<Rightarrow> string \<Rightarrow> string \<Rightarrow> real list \<Rightarrow> real list \<Rightarrow> real list \<Rightarrow> error + 'g" where
  "fit_null_model L pseudo bigwig1 bigwig2 scores1 scores2 gcs =
     (if length scores1 \<noteq> length scores2 \<or> length gcs \<noteq> length scores1
      then Inl (Uncaught ''IndexError'')
      else (let values_T = log2fc_values pseudo scores1 scores2 gcs
            in if length values_T = 0 then Inl (SysExit (zero_message bigwig1 bigwig2))
               else best_gmm_of (bic_loop L values_T [1..<10] None)))"

fun fit_null_models ::
  "'g numlib \<Rightarrow> real \<Rightarrow> (string \<rightharpoonup> real list) \<Rightarrow> real list \<Rightarrow> (string \<times> string) list \<Rightarrow>
   (string \<times> string \<rightharpoonup> 'g) \<Rightarrow> error + (string \<times> string \<rightharpoonup> 'g)" where
  "fit_null_models L pseudo background_sig gcs [] log2fc_params = Inr log2fc_params"
| "fit_null_models L pseudo background_sig gcs ((bigwig1, bigwig2) # rest) log2fc_params =
     (case background_sig bigwig1 of
        None \<Rightarrow> Inl (Uncaught ''KeyError'')
      | Some scores1 \<Rightarrow>
     (case background_sig bigwig2 of
        None \<Rightarrow> Inl (Uncaught ''KeyError'')
      | Some scores2 \<Rightarrow>
     (case fit_null_model L pseudo bigwig1 bigwig2 scores1 scores2 gcs of
        Inl e \<Rightarrow> Inl e
      | Inr best_gmm \<Rightarrow>
          fit_null_models L pseudo background_sig gcs rest
            (log2fc_params((bigwig1, bigwig2) \<mapsto> best_gmm)))))"

subsection \<open>The result table\<close>

text \<open>
  A pandas frame: the column labels, and the rows, each with its index label (the TF
  name) and one cell per column.
\<close>

datatype cell = FloatCell real | IntCell int | StrCell string

record frame =
  columns :: "string list"
  rows :: "(string \<times> cell list) list"

text \<open>
  \<^verbatim>\<open>info_columns = ["total_tfbs"]\<close>
  \<^verbatim>\<open>info_columns.extend(["{0}_{1}".format(cond, metric) for (cond, metric) in itertools.product(args.cond_names, ["threshold", "bound"])])\<close>
  \<^verbatim>\<open>info_columns.extend(["{0}_{1}_{2}".format(comparison[0], comparison[1], metric) for (comparison, metric) in itertools.product(comparisons, ["change", "pvalue"])])\<close>
\<close>

definition info_columns :: "string list \<Rightarrow> (string \<times> string) list \<Rightarrow> string list" where
  "info_columns conds comparisons =
     [''total_tfbs'']
     @ map (\<lambda>(cond, metric). cond @ ''_'' @ metric)
         (itertools_product conds [''threshold'', ''bound''])
     @ map (\<lambda>(comparison, metric). fst comparison @ ''_'' @ snd comparison @ ''_'' @ metric)
         (itertools_product comparisons [''change'', ''pvalue''])"

text \<open>
  Modelled from the spec: \<^verbatim>\<open>process_tfbs\<close> (module \<^verbatim>\<open>BINDetect_functions\<close>) is
  not among the sources. The spec's result row holds, per TF, the total site count, per
  condition the threshold used and the bound-site count, and per condition pair the
  fold change and the p-value: one row, indexed by the TF name, under the column labels
  that the controller itself uses. The numbers come from the parameter \<open>stats\<close>.
\<close>

definition process_tfbs ::
  "(string \<Rightarrow> string \<Rightarrow> real) \<Rightarrow> string \<Rightarrow> string list \<Rightarrow> (string \<times> string) list \<Rightarrow> frame" where
  "process_tfbs stats name conds comparisons =
     (let cols = info_columns conds comparisons
      in \<lparr>columns = cols, rows = [(name, map (\<lambda>col. FloatCell (stats name col)) cols)]\<rparr>)"

text \<open>
  \<^verbatim>\<open>pd.concat(results)\<close> raises on an empty list. The frames concatenated here all
  carry the same column labels, so the result has these labels and all the rows.
\<close>

definition pd_concat :: "frame list \<Rightarrow> error + frame" where
  "pd_concat results =
     (case results of
        [] \<Rightarrow> Inl (Uncaught ''pd.concat'')
      | f # fs \<Rightarrow> Inr \<lparr>columns = columns f, rows = concat (map rows (f # fs))\<rparr>)"

fun index_of :: "string \<Rightarrow> string list \<Rightarrow> nat option" where
  "index_of col [] = None"
| "index_of col (c # cs) = (if c = col then Some 0 else map_option Suc (index_of col cs))"

fun map_cells :: "(cell \<Rightarrow> cell option) \<Rightarrow> nat \<Rightarrow> (string \<times> cell list) list \<Rightarrow> (string \<times> cell list) list option" where
  "map_cells f i [] = Some []"
| "map_cells f i ((name, cells) # rest) =
     (if length cells \<le> i then None
      else (case f (cells ! i) of
              None \<Rightarrow> None
            | Some c \<Rightarrow> map_option (Cons (name, cells[i := c])) (map_cells f i rest)))"

text \<open>
  \<^verbatim>\<open>info_table[col] = info_table[col].map(f)\<close>: KeyError without such a column, and
  whatever \<open>f\<close> raises on a cell.
\<close>

definition map_column :: "(cell \<Rightarrow> cell option) \<Rightarrow> string \<Rightarrow> frame \<Rightarrow> error + frame" where
  "map_column f col t =
     (case index_of col (columns t) of
        None \<Rightarrow> Inl (Uncaught ''KeyError'')
      | Some i \<Rightarrow>
          (case map_cells f i (rows t) of
             None \<Rightarrow> Inl (Uncaught ''map'')
           | Some rs \<Rightarrow> Inr (t\<lparr>rows := rs\<rparr>)))"

text \<open>\<^verbatim>\<open>int(x)\<close> truncates a float towards zero.\<close>

definition py_int :: "real \<Rightarrow> int" where
  "py_int x = (if 0 \<le> x then \<lfloor>x\<rfloor> else \<lceil>x\<rceil>)"

fun cell_int :: "cell \<Rightarrow> cell option" where
  "cell_int (FloatCell x) = Some (IntCell (py_int x))"
| "cell_int (IntCell i) = Some (IntCell i)"
| "cell_int (StrCell s) = None"

fun cell_round5 :: "cell \<Rightarrow> cell option" where
  "cell_round5 (FloatCell x) = Some (FloatCell (py_round x 5))"
| "cell_round5 (IntCell i) = Some (IntCell i)"
| "cell_round5 (StrCell s) = None"

text \<open>\<^verbatim>\<open>"{:.5E}".format\<close>, with the rendering of a number taken as a parameter.\<close>

fun cell_format :: "(real \<Rightarrow> string) \<Rightarrow> cell \<Rightarrow> cell option" where
  "cell_format fmt (FloatCell x) = Some (StrCell (fmt x))"
| "cell_format fmt (IntCell i) = Some (StrCell (fmt (of_int i)))"
| "cell_format fmt (StrCell s) = None"

fun foldE :: "('b \<Rightarrow> 'a \<Rightarrow> error + 'a) \<Rightarrow> 'b list \<Rightarrow> 'a \<Rightarrow> error + 'a" where
  "foldE f [] t = Inr t"
| "foldE f (x # xs) t = (case f x t of Inl e \<Rightarrow> Inl e | Inr t' \<Rightarrow> foldE f xs t')"

text \<open>
  \<^verbatim>\<open>info_table["total_tfbs"] = info_table["total_tfbs"].map(int)\<close>
  \<^verbatim>\<open>for condition in args.cond_names: info_table[condition + "_bound"] = info_table[condition + "_bound"].map(int)\<close>
  This is the table written to \<^verbatim>\<open>bindetect_results.xlsx\<close>.
\<close>

definition condition_specific :: "string list \<Rightarrow> frame \<Rightarrow> error + frame" where
  "condition_specific conds t =
     (case map_column cell_int ''total_tfbs'' t of
        Inl e \<Rightarrow> Inl e
      | Inr t' \<Rightarrow> foldE (\<lambda>condition. map_column cell_int (condition @ ''_bound'')) conds t')"

text \<open>
  \<^verbatim>\<open>for (cond1, cond2) in comparisons:\<close>
  \<^verbatim>\<open>    base = cond1 + "_" + cond2\<close>
  \<^verbatim>\<open>    info_table[base + "_change"] = info_table[base + "_change"].round(5)\<close>
  \<^verbatim>\<open>    info_table[base + "_pvalue"] = info_table[base + "_pvalue"].map("{:.5E}".format)\<close>
\<close>

definition format_comparisons :: "(real \<Rightarrow> string) \<Rightarrow> (string \<times> string) list \<Rightarrow> frame \<Rightarrow> error + frame" where
  "format_comparisons fmt comparisons t =
     foldE (\<lambda>(cond1, cond2) t0.
              (let base = cond1 @ ''_'' @ cond2
               in case map_column cell_round5 (base @ ''_change'') t0 of
                    Inl e \<Rightarrow> Inl e
                  | Inr t1 \<Rightarrow> map_column (cell_format fmt) (base @ ''_pvalue'') t1))
           comparisons t"

text \<open>
  \<^verbatim>\<open>info_table.insert(0, "TF_name", info_table.index)\<close> raises if the label is
  already a column.
\<close>

definition insert_TF_name :: "frame \<Rightarrow> error + frame" where
  "insert_TF_name t =
     (if ''TF_name'' \<in> set (columns t) then Inl (Uncaught ''insert'')
      else Inr \<lparr>columns = ''TF_name'' # columns t,
                rows = map (\<lambda>(name, cells). (name, StrCell name # cells)) (rows t)\<rparr>)"

subsection \<open>The run\<close>

text \<open>
  The command line: \<^verbatim>\<open>--signals\<close>, \<^verbatim>\<open>--cond_names\<close>, \<^verbatim>\<open>--bound_threshold\<close> and
  \<^verbatim>\<open>--pseudo\<close>.
\<close>

record args =
  arg_signals :: "string list"
  arg_cond_names :: "string list option"
  arg_bound_threshold :: real
  arg_pseudo :: "real option"

text \<open>
  What the run takes from the interpreter and from the modules that are not among the
  sources:
  \<^item> \<open>path_prefix\<close> is \<^verbatim>\<open>os.path.basename(os.path.splitext(bw)[0])\<close>;
  \<^item> \<open>str_hash\<close> is the hash of strings in this interpreter process;
  \<^item> \<open>motif_names_all\<close> is \<^verbatim>\<open>[motif.name for motif in motif_list]\<close>, forward and
    reverse motifs, after \<^verbatim>\<open>set_name\<close> and \<^verbatim>\<open>filafy\<close>;
  \<^item> \<open>background_signal\<close> and \<open>background_gc\<close> are \<^verbatim>\<open>background["signal"]\<close> and
    \<^verbatim>\<open>background["gc"]\<close> as merged from the results of \<^verbatim>\<open>scan_and_score\<close>, and
    \<open>TF_overlaps\<close> the merged overlap counts;
  \<^item> \<open>tf_stats\<close> gives the numbers that \<^verbatim>\<open>process_tfbs\<close> computes for a TF from the
    thresholds, the pseudocount and the null models;
  \<^item> \<open>overlap_to_distance\<close> is the helper of that name;
  \<^item> \<open>format_5E\<close> renders a float as \<^verbatim>\<open>"{:.5E}"\<close> does.
\<close>

record ('g, 'ov) env =
  path_prefix :: "string \<Rightarrow> string"
  str_hash :: "string \<Rightarrow> nat"
  motif_names_all :: "string list"
  background_signal :: "string \<rightharpoonup> real list"
  background_gc :: "real list"
  TF_overlaps :: 'ov
  tf_stats :: "(string \<rightharpoonup> real) \<Rightarrow> real \<Rightarrow> (string \<times> string \<rightharpoonup> 'g) \<Rightarrow> string \<Rightarrow> string \<Rightarrow> real"
  overlap_to_distance :: "'ov \<Rightarrow> real list list \<times> string list"
  format_5E :: "real \<Rightarrow> string"

text \<open>
  \<^verbatim>\<open>args.cond_names = [os.path.basename(os.path.splitext(bw)[0]) for bw in args.signals] if args.cond_names is None else args.cond_names\<close>
\<close>

definition resolve_cond_names :: "(string \<Rightarrow> string) \<Rightarrow> args \<Rightarrow> string list" where
  "resolve_cond_names prefix_of a =
     (case arg_cond_names a of
        None \<Rightarrow> map prefix_of (arg_signals a)
      | Some names \<Rightarrow> names)"

text \<open>
  The fitted models: \<^verbatim>\<open>args.thresholds\<close>, \<^verbatim>\<open>args.pseudo\<close> and \<^verbatim>\<open>log2fc_params\<close>.
\<close>

record 'g fitted =
  fit_thresholds :: "string \<rightharpoonup> real"
  fit_pseudo :: real
  fit_log2fc_params :: "string \<times> string \<rightharpoonup> 'g"

text \<open>
  From the merged background to the fitted models. After the loop over the conditions
  the plots are aligned with \<^verbatim>\<open>np.min([ax.get_xlim()[1] for ax, fig in figures])\<close>,
  which raises when there is no condition and hence no figure. The null models are
  fitted under \<^verbatim>\<open>if len(args.signals) > 1\<close>.
\<close>

definition fit_models :: "'g numlib \<Rightarrow> ('g, 'ov) env \<Rightarrow> args \<Rightarrow> error + 'g fitted" where
  "fit_models L E a =
     (let conds = resolve_cond_names (path_prefix E) a;
          comparisons = combinations2 conds
      in case check_background (background_signal E) conds of
           Inl e \<Rightarrow> Inl e
         | Inr u \<Rightarrow>
      (case estimate_thresholds L (arg_bound_threshold a) (background_signal E) conds threshold_state0 of
           Inl e \<Rightarrow> Inl e
         | Inr st \<Rightarrow>
      if conds = [] then Inl (Uncaught ''np.min'')
      else
      (case estimate_pseudocount (arg_pseudo a) st of
           Inl e \<Rightarrow> Inl e
         | Inr pseudo \<Rightarrow>
      (case (if 1 < length (arg_signals a)
             then fit_null_models L pseudo (background_signal E) (background_gc E) comparisons Map.empty
             else Inr Map.empty) of
           Inl e \<Rightarrow> Inl e
         | Inr log2fc_params \<Rightarrow>
             Inr \<lparr>fit_thresholds = thresholds st, fit_pseudo = pseudo,
                  fit_log2fc_params = log2fc_params\<rparr>))))"

text \<open>
  What the run leaves behind: the fitted models, the tables written to
  \<^verbatim>\<open>bindetect_results.xlsx\<close> and \<^verbatim>\<open>bindetect_results.txt\<close>, and the distance matrix
  with its names written to \<^verbatim>\<open>TF_distance_matrix.txt\<close>, \<open>None\<close> when that step does
  not run. The plots are not part of the model.
\<close>

record 'g outcome =
  out_models :: "'g fitted"
  out_excel :: frame
  out_table :: frame
  out_distance :: "(real list list \<times> string list) option"

text \<open>
  The per-TF aggregation and what follows it. The names are
  \<^verbatim>\<open>motif_names_predict = list(set([motif.name for motif in motif_list]))\<close>; the rows are
  computed in that order, by the loop or by the pool, and concatenated. The distance
  matrix is computed under \<^verbatim>\<open>if no_conditions > 1\<close>, where
  \<^verbatim>\<open>no_conditions = len(args.signals)\<close>.
\<close>

definition aggregate :: "('g, 'ov) env \<Rightarrow> args \<Rightarrow> 'g fitted \<Rightarrow> error + 'g outcome" where
  "aggregate E a m =
     (let conds = resolve_cond_names (path_prefix E) a;
          no_conditions = length (arg_signals a);
          comparisons = combinations2 conds;
          motif_names_predict = list_of_set (str_hash E) (motif_names_all E);
          stats = tf_stats E (fit_thresholds m) (fit_pseudo m) (fit_log2fc_params m);
          results = map (\<lambda>name. process_tfbs stats name conds comparisons) motif_names_predict
      in case pd_concat results of
           Inl e \<Rightarrow> Inl e
         | Inr info_table \<Rightarrow>
      (case condition_specific conds info_table of
           Inl e \<Rightarrow> Inl e
         | Inr excel \<Rightarrow>
      (case format_comparisons (format_5E E) comparisons excel of
           Inl e \<Rightarrow> Inl e
         | Inr formatted \<Rightarrow>
      (case insert_TF_name formatted of
           Inl e \<Rightarrow> Inl e
         | Inr table \<Rightarrow>
             Inr \<lparr>out_models = m, out_excel = excel, out_table = table,
                  out_distance = (if 1 < no_conditions
                                  then Some (overlap_to_distance E (TF_overlaps E))
                                  else None)\<rparr>))))"

definition run_bindetect :: "'g numlib \<Rightarrow> ('g, 'ov) env \<Rightarrow> args \<Rightarrow> error + 'g outcome" where
  "run_bindetect L E a =
     (case fit_models L E a of
        Inl e \<Rightarrow> Inl e
      | Inr m \<Rightarrow> aggregate E a m)"

subsection \<open>A concrete library and environment\<close>

text \<open>
  To evaluate the model at concrete inputs, the record of library functions needs an
  instance. The functions below have the interface of the library routines and are
  simple enough to compute with; they are stand-ins, not the routines of numpy,
  scikit-learn and scipy. The percentile interpolates linearly between the two nearest
  ranks; a mixture cannot be fitted to fewer than two samples, nor to fewer samples than
  components; the mixture with two components has the lowest BIC; the fitted location
  lies below the smallest datum; the quantile function is increasing and the density
  has a single peak; the minimiser searches a small grid.
\<close>

definition demo_percentile :: "real list \<Rightarrow> real \<Rightarrow> real option" where
  "demo_percentile a q =
     (if a = [] then None
      else (let s = sort a;
                pos = q / 100 * real (length a - 1);
                lo = nat \<lfloor>pos\<rfloor>;
                hi = min (lo + 1) (length a - 1)
            in Some (s ! lo + (pos - real lo) * (s ! hi - s ! lo))))"

definition demo_lib :: "nat numlib" where
  "demo_lib =
     \<lparr>percentile = demo_percentile,
      GaussianMixture_fit = (\<lambda>random_state n X. if length X < max 2 n then None else Some n),
      gmm_bic = (\<lambda>g X. \<bar>real g - 2\<bar>),
      gmm_means = (\<lambda>g. replicate g 0),
      gmm_covariances = (\<lambda>g. replicate g 1),
      lognorm_fit = (\<lambda>data f0 fscale. if data = [] then None else Some (f0, min_list data / 3, fscale)),
      lognorm_ppf = (\<lambda>q (s, loc, scale). loc + \<bar>scale\<bar> * (1 + \<bar>s\<bar> * (2 * q - 1))),
      lognorm_pdf = (\<lambda>x (s, loc, scale). 1 / (1 + (x - (loc + \<bar>scale\<bar>))\<^sup>2)),
      fmin = (\<lambda>f x0. fold (\<lambda>x best. if f x < f best then x else best)
                         [x0 + 1 / 2, x0 + 1, x0 + 3 / 2, x0 + 2] x0)\<rparr>"

text \<open>
  The same library in another process: a fit without a seed gives another mixture.
\<close>

definition demo_lib_elsewhere :: "nat numlib" where
  "demo_lib_elsewhere =
     demo_lib\<lparr>GaussianMixture_fit :=
       (\<lambda>random_state n X.
          case random_state of
            None \<Rightarrow> map_option Suc (GaussianMixture_fit demo_lib None n X)
          | Some seed \<Rightarrow> GaussianMixture_fit demo_lib (Some seed) n X)\<rparr>"

text \<open>
  An environment with the motif names A and B (A twice, for its reverse variant), the
  given string hash and background, and per-TF numbers that show the pseudocount.
\<close>

definition demo_env :: "(string \<Rightarrow> nat) \<Rightarrow> (string \<rightharpoonup> real list) \<Rightarrow> real list \<Rightarrow> (nat, unit) env" where
  "demo_env h background_sig gcs =
     \<lparr>path_prefix = id,
      str_hash = h,
      motif_names_all = [''A'', ''B'', ''A''],
      background_signal = background_sig,
      background_gc = gcs,
      TF_overlaps = (),
      tf_stats = (\<lambda>ths pseudo params name col. pseudo),
      overlap_to_distance = (\<lambda>ov. ([], [])),
      format_5E = (\<lambda>x. ''x.xxxxxE+xx'')\<rparr>"

text \<open>
  Concrete runs: two conditions A and B whose background is zero everywhere; one
  condition A with the background 1, 2, 3; and two string hashes, one that lists A
  before B and one that lists B before A.
\<close>

definition zero_env :: "(nat, unit) env" where
  "zero_env = demo_env length [''A'' \<mapsto> [0, 0], ''B'' \<mapsto> [0, 0]] [1 / 2, 1 / 2]"

definition two_args :: args where
  "two_args = \<lparr>arg_signals = [''A'', ''B''], arg_cond_names = None,
               arg_bound_threshold = 1 / 2, arg_pseudo = None\<rparr>"

definition one_env :: "(string \<Rightarrow> nat) \<Rightarrow> (nat, unit) env" where
  "one_env h = demo_env h [''A'' \<mapsto> [1, 2, 3]] [1 / 2, 1 / 2, 1 / 2]"

definition one_args :: args where
  "one_args = \<lparr>arg_signals = [''A''], arg_cond_names = None,
               arg_bound_threshold = 1 / 2, arg_pseudo = None\<rparr>"

definition hash_A_first :: "string \<Rightarrow> nat" where
  "hash_A_first s = (if s = ''A'' then 0 else 1)"

definition hash_B_first :: "string \<Rightarrow> nat" where
  "hash_B_first s = (if s = ''A'' then 1 else 0)"

subsection \<open>Tables that differ in the order of their rows only\<close>

definition same_up_to_row_order :: "frame \<Rightarrow> frame \<Rightarrow> bool" where
  "same_up_to_row_order t1 t2 = (columns t1 = columns t2 \<and> mset (rows t1) = mset (rows t2))"

text \<open>The labels of the fold-change and p-value columns end in these suffixes.\<close>

definition comparison_column :: "string \<Rightarrow> bool" where
  "comparison_column col = (suffix ''_change'' col \<or> suffix ''_pvalue'' col)"

section \<open>Properties\<close>

subsection \<open>Primitives\<close>

lemma distinct_list_of_set: "distinct (list_of_set h xs)"
  by (simp add: list_of_set_def)

lemma set_list_of_set: "set (list_of_set h xs) = set xs"
  by (simp add: list_of_set_def)

lemma mset_list_of_set: "mset (list_of_set h xs) = mset (remdups xs)"
  by (simp add: list_of_set_def)

subsection \<open>Writer queues\<close>

lemma slice_mem:
  assumes "0 < k" "c < k"
  shows "x \<in> set (slice_from_step xs c k) \<longleftrightarrow> (\<exists>j<length xs. j mod k = c \<and> xs ! j = x)"
proof -
  have *: "\<And>j. (c \<le> j \<and> (j - c) mod k = 0) = (j mod k = c)"
  proof
    fix j assume "c \<le> j \<and> (j - c) mod k = 0"
    then obtain q where "j - c = k * q" "c \<le> j" by (auto simp: mod_eq_0_iff_dvd)
    then have "j = c + k * q" by simp
    then show "j mod k = c" using assms by simp
  next
    fix j assume h: "j mod k = c"
    have "c \<le> j" using h by (metis mod_less_eq_dividend)
    moreover have "(j - c) mod k = 0" using h by (metis minus_mod_eq_mult_div mod_mult_self1_is_0 mult.commute)
    ultimately show "c \<le> j \<and> (j - c) mod k = 0" by simp
  qed
  show ?thesis
    unfolding slice_from_step_def by (auto simp: * )
qed

lemma chunk_unique:
  assumes "0 < k" "distinct xs" "x \<in> set xs"
  shows "\<exists>!c. c < k \<and> x \<in> set (TF_names_chunks xs k ! c)"
proof -
  from assms obtain j where j: "j < length xs" "xs ! j = x" by (auto simp: in_set_conv_nth)
  have mem: "\<And>c. c < k \<Longrightarrow> x \<in> set (TF_names_chunks xs k ! c) \<longleftrightarrow> j mod k = c"
  proof -
    fix c assume c: "c < k"
    have "x \<in> set (TF_names_chunks xs k ! c) \<longleftrightarrow> (\<exists>i<length xs. i mod k = c \<and> xs ! i = x)"
      using c assms(1) by (simp add: TF_names_chunks_def slice_mem)
    also have "\<dots> \<longleftrightarrow> j mod k = c"
      using j assms(2) by (auto simp: nth_eq_iff_index_eq)
    finally show "x \<in> set (TF_names_chunks xs k ! c) \<longleftrightarrow> j mod k = c" .
  qed
  show ?thesis
  proof (rule ex1I[of _ "j mod k"])
    show "j mod k < k \<and> x \<in> set (TF_names_chunks xs k ! (j mod k))"
      using assms(1) mem[of "j mod k"] by simp
  next
    fix c assume "c < k \<and> x \<in> set (TF_names_chunks xs k ! c)"
    then show "c = j mod k" using mem[of c] by simp
  qed
qed

lemma fold_upd_in: "x \<in> set ys \<Longrightarrow> fold (\<lambda>TF m. m(TF \<mapsto> q)) ys m x = Some q"
  by (induction ys arbitrary: m rule: rev_induct) auto

lemma fold_upd_notin: "x \<notin> set ys \<Longrightarrow> fold (\<lambda>TF m. m(TF \<mapsto> q)) ys m x = m x"
  by (induction ys arbitrary: m) auto

lemma assign_queues_notin:
  "\<forall>ys\<in>set chunks. x \<notin> set ys \<Longrightarrow> assign_queues q chunks m x = m x"
  by (induction chunks arbitrary: q m) (auto simp: fold_upd_notin)

lemma assign_queues_unique:
  assumes "i < length chunks" "x \<in> set (chunks ! i)"
    and "\<forall>i'<length chunks. i' \<noteq> i \<longrightarrow> x \<notin> set (chunks ! i')"
  shows "assign_queues q chunks m x = Some (q + i)"
  using assms
proof (induction chunks arbitrary: q m i)
  case Nil
  then show ?case by simp
next
  case (Cons ys rest)
  show ?case
  proof (cases i)
    case 0
    have "\<forall>zs\<in>set rest. x \<notin> set zs"
    proof
      fix zs assume "zs \<in> set rest"
      then obtain n where "n < length rest" "rest ! n = zs" by (auto simp: in_set_conv_nth)
      then show "x \<notin> set zs" using Cons.prems(3)[rule_format, of "Suc n"] 0 by auto
    qed
    then show ?thesis using 0 Cons.prems(2) by (simp add: assign_queues_notin fold_upd_in)
  next
    case (Suc n)
    have "assign_queues (Suc q) rest (fold (\<lambda>TF m. m(TF \<mapsto> q)) ys m) x = Some (Suc q + n)"
    proof (rule Cons.IH)
      show "n < length rest" using Cons.prems(1) Suc by simp
      show "x \<in> set (rest ! n)" using Cons.prems(2) Suc by simp
      show "\<forall>i'<length rest. i' \<noteq> n \<longrightarrow> x \<notin> set (rest ! i')"
        using Cons.prems(3) Suc by (metis Suc_less_eq length_Cons nat.inject nth_Cons_Suc)
    qed
    then show ?thesis using Suc by simp
  qed
qed

lemma length_TF_names_chunks: "length (TF_names_chunks xs k) = k"
  by (simp add: TF_names_chunks_def)

lemma chunk_subset: "c < k \<Longrightarrow> set (TF_names_chunks xs k ! c) \<subseteq> set xs"
  by (auto simp: TF_names_chunks_def slice_from_step_def)

lemma slice_step_one: "slice_from_step xs 0 1 = xs"
  by (simp add: slice_from_step_def map_nth)

lemma single_writer: "0 < writer_cores \<and> TF_names_chunks names writer_cores = [names]"
  using slice_step_one[of names] by (simp add: writer_cores_def TF_names_chunks_def)

text \<open>
  Claim C8. The round-robin assignment of TF names to writer units partitions the name
  set. For any number \<open>k \<ge> 1\<close> of writer units (the program sets it to 1) and every
  name \<open>TF\<close> of the prediction set \<^verbatim>\<open>list(set(...))\<close>: exactly one chunk holds the name,
  the dictionary \<^verbatim>\<open>qs\<close> sends the name to the queue of that chunk, and every chunk
  holds names of the prediction set only. The dictionary is built once and handed to
  the workers unchanged, so the queue of a name is the same for the whole run.
\<close>

theorem writer_queue_partition:
  assumes "0 < k" and "TF \<in> set (list_of_set h names)"
  shows "(\<exists>!c. c < k \<and> TF \<in> set (TF_names_chunks (list_of_set h names) k ! c))
       \<and> (\<exists>c<k. writer_queues (list_of_set h names) k TF = Some c
                \<and> TF \<in> set (TF_names_chunks (list_of_set h names) k ! c))
       \<and> (\<forall>c<k. set (TF_names_chunks (list_of_set h names) k ! c) \<subseteq> set names)"
proof -
  let ?xs = "list_of_set h names"
  have u: "\<exists>!c. c < k \<and> TF \<in> set (TF_names_chunks ?xs k ! c)"
    using assms by (intro chunk_unique) (simp_all add: distinct_list_of_set)
  then obtain c where c: "c < k" "TF \<in> set (TF_names_chunks ?xs k ! c)"
    and cu: "\<And>c'. c' < k \<Longrightarrow> TF \<in> set (TF_names_chunks ?xs k ! c') \<Longrightarrow> c' = c" by blast
  have "assign_queues 0 (TF_names_chunks ?xs k) Map.empty TF = Some (0 + c)"
  proof (rule assign_queues_unique)
    show "c < length (TF_names_chunks ?xs k)" using c(1) by (simp add: length_TF_names_chunks)
    show "TF \<in> set (TF_names_chunks ?xs k ! c)" by (rule c(2))
    show "\<forall>i'<length (TF_names_chunks ?xs k). i' \<noteq> c \<longrightarrow> TF \<notin> set (TF_names_chunks ?xs k ! i')"
      using cu by (metis length_TF_names_chunks)
  qed
  then have "writer_queues ?xs k TF = Some c" by (simp add: writer_queues_def)
  moreover have "\<forall>c<k. set (TF_names_chunks ?xs k ! c) \<subseteq> set names"
    using chunk_subset[of _ k ?xs] by (simp add: set_list_of_set)
  ultimately show ?thesis using u c by blast
qed

theorem writer_queue_partition_witness:
  "0 < (2::nat) \<and> ''C'' \<in> set (list_of_set length [''A'', ''B'', ''C'', ''A''])
   \<and> (\<exists>!c. c < 2 \<and> ''C'' \<in> set (TF_names_chunks (list_of_set length [''A'', ''B'', ''C'', ''A'']) 2 ! c))
   \<and> (\<exists>c<2. writer_queues (list_of_set length [''A'', ''B'', ''C'', ''A'']) 2 ''C'' = Some c
          \<and> ''C'' \<in> set (TF_names_chunks (list_of_set length [''A'', ''B'', ''C'', ''A'']) 2 ! c))
   \<and> set (TF_names_chunks (list_of_set length [''A'', ''B'', ''C'', ''A'']) 2 ! 0)
          \<subseteq> set [''A'', ''B'', ''C'', ''A'']
   \<and> set (TF_names_chunks (list_of_set length [''A'', ''B'', ''C'', ''A'']) 2 ! 1)
          \<subseteq> set [''A'', ''B'', ''C'', ''A'']"
proof -
  have m: "''C'' \<in> set (list_of_set length [''A'', ''B'', ''C'', ''A''])"
    by (simp add: set_list_of_set)
  show ?thesis
    using m writer_queue_partition [of 2 "''C''" length "[''A'', ''B'', ''C'', ''A'']"]
    by simp
qed

subsection \<open>GC content\<close>

lemma gc_pool_map: "gc_content_pool get_gc peak_chunks genome = map (\<lambda>chunk. get_gc chunk genome) peak_chunks"
  by (induction peak_chunks) (simp_all add: gc_content_pool_def itertools_product_def)

text \<open>
  Claim C10. The GC fraction that every motif's background composition is built from is
  the unweighted mean of the per-chunk GC fractions: their sum divided by the number of
  chunks, whatever the chunks' sizes. The composition is
  \<open>[(1 - gc) / 2, gc / 2, gc / 2, (1 - gc) / 2]\<close>; its entries sum to 1, the two GC
  entries are equal and the two AT entries are equal. (Stated for at least one chunk.)
\<close>

theorem gc_background_composition:
  assumes "peak_chunks \<noteq> []"
  shows "gc_content get_gc peak_chunks genome
           = (\<Sum>chunk\<leftarrow>peak_chunks. get_gc chunk genome) / real (length peak_chunks)
       \<and> bg (gc_content get_gc peak_chunks genome)
           = [(1 - gc_content get_gc peak_chunks genome) / 2,
              gc_content get_gc peak_chunks genome / 2,
              gc_content get_gc peak_chunks genome / 2,
              (1 - gc_content get_gc peak_chunks genome) / 2]
       \<and> sum_list (bg (gc_content get_gc peak_chunks genome)) = 1
       \<and> bg (gc_content get_gc peak_chunks genome) ! 1 = bg (gc_content get_gc peak_chunks genome) ! 2
       \<and> bg (gc_content get_gc peak_chunks genome) ! 0 = bg (gc_content get_gc peak_chunks genome) ! 3"
proof -
  have "gc_content get_gc peak_chunks genome
           = (\<Sum>chunk\<leftarrow>peak_chunks. get_gc chunk genome) / real (length peak_chunks)"
    by (simp add: gc_content_def np_mean_def gc_pool_map)
  moreover have "sum_list (bg g) = 1" for g :: real
    by (simp add: bg_def field_simps)
  ultimately show ?thesis by (simp add: bg_def)
qed

theorem gc_background_composition_witness:
  "[(1, 4), (30, 40 :: real)] \<noteq> [] \<and>
   gc_content (\<lambda>(gc_bases, bases) genome. gc_bases / bases) [(1, 4), (30, 40 :: real)] () = 1 / 2
   \<and> bg (gc_content (\<lambda>(gc_bases, bases) genome. gc_bases / bases) [(1, 4), (30, 40 :: real)] ())
       = [1 / 4, 1 / 4, 1 / 4, 1 / 4]
   \<and> sum_list (bg (gc_content (\<lambda>(gc_bases, bases) genome. gc_bases / bases) [(1, 4), (30, 40 :: real)] ())) = 1"
  using gc_background_composition [of "[(1, 4), (30, 40 :: real)]" "\<lambda>(gc_bases, bases) genome. gc_bases / bases" "()"]
  by simp

subsection \<open>The first maximum\<close>

lemma range_1_3: "[1..<3] = [1, 2]"
  by (simp add: upt_conv_Cons)

lemma range_1_10: "[1..<10] = [1, 2, 3, 4, 5, 6, 7, 8, 9]"
  by (simp add: upt_conv_Cons)

lemma argmax_from_props:
  assumes "besti < i" "\<forall>j<i. j < length ys \<longrightarrow> ys ! j \<le> best" "besti < length ys" "ys ! besti = best"
    "\<forall>j<besti. ys ! j < best" "ys = pre @ xs" "length pre = i"
  shows "argmax_from xs i best besti < length ys
       \<and> (\<forall>j<length ys. ys ! j \<le> ys ! argmax_from xs i best besti)
       \<and> (\<forall>j<argmax_from xs i best besti. ys ! j < ys ! argmax_from xs i best besti)"
  using assms
proof (induction xs arbitrary: i best besti pre)
  case Nil
  then show ?case by auto
next
  case (Cons x xs)
  have xi: "ys ! i = x" "i < length ys" using Cons.prems(6,7) by auto
  have pre': "ys = (pre @ [x]) @ xs" "length (pre @ [x]) = Suc i" using Cons.prems(6,7) by auto
  show ?case
  proof (cases "best < x")
    case True
    have "argmax_from xs (Suc i) x i < length ys
       \<and> (\<forall>j<length ys. ys ! j \<le> ys ! argmax_from xs (Suc i) x i)
       \<and> (\<forall>j<argmax_from xs (Suc i) x i. ys ! j < ys ! argmax_from xs (Suc i) x i)"
    proof (rule Cons.IH[OF _ _ _ _ _ pre'])
      show "i < Suc i" by simp
      show "\<forall>j<Suc i. j < length ys \<longrightarrow> ys ! j \<le> x"
        using Cons.prems(2) True xi by (auto simp: less_Suc_eq)
      show "i < length ys" by (rule xi)
      show "ys ! i = x" by (rule xi)
      show "\<forall>j<i. ys ! j < x" using Cons.prems(2) True xi by (metis le_less_trans less_trans)
    qed
    then show ?thesis using True by simp
  next
    case False
    have "argmax_from xs (Suc i) best besti < length ys
       \<and> (\<forall>j<length ys. ys ! j \<le> ys ! argmax_from xs (Suc i) best besti)
       \<and> (\<forall>j<argmax_from xs (Suc i) best besti. ys ! j < ys ! argmax_from xs (Suc i) best besti)"
    proof (rule Cons.IH[OF _ _ _ _ _ pre'])
      show "besti < Suc i" using Cons.prems(1) by simp
      show "\<forall>j<Suc i. j < length ys \<longrightarrow> ys ! j \<le> best"
        using Cons.prems(2) False xi by (auto simp: less_Suc_eq)
      show "besti < length ys" by (rule Cons.prems(3))
      show "ys ! besti = best" by (rule Cons.prems(4))
      show "\<forall>j<besti. ys ! j < best" by (rule Cons.prems(5))
    qed
    then show ?thesis using False by simp
  qed
qed

lemma np_argmax_first_max:
  assumes "np_argmax ys = Some i"
  shows "i < length ys \<and> (\<forall>j<length ys. ys ! j \<le> ys ! i) \<and> (\<forall>j<i. ys ! j < ys ! i)"
proof (cases ys)
  case Nil
  then show ?thesis using assms by (simp add: np_argmax_def)
next
  case (Cons y rest)
  have "argmax_from rest 1 y 0 < length ys
       \<and> (\<forall>j<length ys. ys ! j \<le> ys ! argmax_from rest 1 y 0)
       \<and> (\<forall>j<argmax_from rest 1 y 0. ys ! j < ys ! argmax_from rest 1 y 0)"
    by (rule argmax_from_props[where pre = "[y]"]) (use Cons in auto)
  then show ?thesis using assms Cons by (simp add: np_argmax_def)
qed

lemma first_max_unique:
  fixes ys :: "real list"
  assumes "i < length ys" "\<forall>j<length ys. ys ! j \<le> ys ! i" "\<forall>j<i. ys ! j < ys ! i"
    and "k < length ys" "\<forall>j<length ys. ys ! j \<le> ys ! k" "\<forall>j<k. ys ! j < ys ! k"
  shows "i = k"
proof (rule ccontr)
  assume "i \<noteq> k"
  then consider "i < k" | "k < i" by linarith
  then show False
  proof cases
    case 1
    then have "ys ! i < ys ! k" using assms(6) by simp
    moreover have "ys ! k \<le> ys ! i" using assms(2,4) by simp
    ultimately show False by simp
  next
    case 2
    then have "ys ! k < ys ! i" using assms(3) by simp
    moreover have "ys ! i \<le> ys ! k" using assms(5,1) by simp
    ultimately show False by simp
  qed
qed

lemma np_argmax_eq:
  assumes "i < length ys" "\<forall>j<length ys. ys ! j \<le> ys ! i" "\<forall>j<i. ys ! j < ys ! i"
  shows "np_argmax ys = Some i"
proof -
  from assms(1) obtain y rest where ys: "ys = y # rest" by (cases ys) auto
  then obtain k where k: "np_argmax ys = Some k" by (simp add: np_argmax_def)
  from np_argmax_first_max[OF k] assms have "i = k"
    by (intro first_max_unique[of i ys k]) auto
  then show ?thesis using k by simp
qed

subsection \<open>Thresholds\<close>

lemma rint_bounds: "\<lfloor>x\<rfloor> \<le> rint x \<and> rint x \<le> \<lfloor>x\<rfloor> + 1"
  by (simp add: rint_def Let_def)

lemma rint_mono:
  assumes "x \<le> y"
  shows "rint x \<le> rint y"
proof (cases "\<lfloor>x\<rfloor> = \<lfloor>y\<rfloor>")
  case True
  have "x - of_int \<lfloor>x\<rfloor> \<le> y - of_int \<lfloor>y\<rfloor>" using assms True by simp
  then show ?thesis using True by (auto simp: rint_def Let_def)
next
  case False
  have "\<lfloor>x\<rfloor> \<le> \<lfloor>y\<rfloor>" using assms by (rule floor_mono)
  then have "\<lfloor>x\<rfloor> + 1 \<le> \<lfloor>y\<rfloor>" using False by simp
  then show ?thesis using rint_bounds[of x] rint_bounds[of y] by linarith
qed

lemma py_round_mono: "x \<le> y \<Longrightarrow> py_round x n \<le> py_round y n"
proof -
  assume "x \<le> y"
  then have "x * 10 ^ n \<le> y * 10 ^ n" by simp
  then have "rint (x * 10 ^ n) \<le> rint (y * 10 ^ n)" by (rule rint_mono)
  then show ?thesis by (simp add: py_round_def divide_right_mono)
qed

lemma bic_loop_two:
  assumes "gmm_fit L 1 X = Some g1" "gmm_fit L 2 X = Some g2"
  shows "best_gmm_of (bic_loop L X [1..<3] None)
           = Inr (if gmm_bic L g2 X < gmm_bic L g1 X then g2 else g1)"
  unfolding range_1_3 using assms by (simp add: best_gmm_of_def Let_def)

lemma estimate_threshold_never_exits:
  "estimate_threshold L bt signal \<noteq> Inl (SysExit msg)"
proof -
  have b: "bic_loop L X ns best \<noteq> Inl (SysExit msg)" for X ns best
    by (induction ns arbitrary: best) (auto simp: Let_def split: option.splits)
  have g: "best_gmm_of (bic_loop L X ns best) \<noteq> Inl (SysExit msg)" for X ns best
    using b[of X ns best] by (auto simp: best_gmm_of_def split: sum.splits option.splits)
  have f: "fit_lognorm L signal \<noteq> Inl (SysExit msg)"
    using g by (auto simp: fit_lognorm_def Let_def split: option.splits sum.splits if_splits)
  show ?thesis using f by (auto simp: estimate_threshold_def Let_def split: sum.splits)
qed

text \<open>
  Claim C1, amended. For a condition whose background values, after the values close to
  zero are removed, are not empty: let the mixture be the one with two components if its
  BIC on the natural logarithms is lower than that of the mixture with one component,
  and the latter otherwise; let \<open>i\<close> be its component with the largest mean (the first
  such); let the log-normal be fitted to the values strictly below their 99th
  percentile, its shape fixed to the standard deviation and its scale to the exponential
  of the mean of component \<open>i\<close>. Then the threshold is the inverse CDF of that
  log-normal at \<open>1 - bound_threshold\<close>, rounded to 5 decimal places. The library calls
  are assumed to return; the fitted mixture lists one variance per mean.
\<close>

theorem threshold_rounded_quantile:
  assumes bg_values: "bg_values = filter (\<lambda>v. \<not> np_isclose v 0) signal"
    and nonempty: "bg_values \<noteq> []"
    and x_max: "percentile L bg_values 99 = Some x_max"
    and fit1: "gmm_fit L 1 (map (\<lambda>v. [ln v]) bg_values) = Some g1"
    and fit2: "gmm_fit L 2 (map (\<lambda>v. [ln v]) bg_values) = Some g2"
    and gmm: "gmm = (if gmm_bic L g2 (map (\<lambda>v. [ln v]) bg_values) < gmm_bic L g1 (map (\<lambda>v. [ln v]) bg_values)
                     then g2 else g1)"
    and len: "length (gmm_covariances L gmm) = length (gmm_means L gmm)"
    and i: "i < length (gmm_means L gmm)"
    and larger: "\<forall>j<length (gmm_means L gmm). gmm_means L gmm ! j \<le> gmm_means L gmm ! i"
    and first: "\<forall>j<i. gmm_means L gmm ! j < gmm_means L gmm ! i"
    and fit: "lognorm_fit L (filter (\<lambda>v. v < x_max) bg_values)
                (sqrt (gmm_covariances L gmm ! i)) (exp (gmm_means L gmm ! i)) = Some log_params"
  shows "fit_lognorm L signal = Inr log_params
       \<and> estimate_threshold L bound_thresh signal
             = Inr (py_round (lognorm_ppf L (1 - bound_thresh) log_params) 5,
                    fmin L (\<lambda>x. - lognorm_pdf L x log_params) 0 / 2)"
proof -
  have a: "np_argmax (gmm_means L gmm) = Some i"
    using i larger first by (rule np_argmax_eq)
  have b: "best_gmm_of (bic_loop L (map (\<lambda>v. [ln v]) bg_values) [1..<3] None) = Inr gmm"
    using bic_loop_two[OF fit1 fit2] gmm by simp
  have "fit_lognorm L signal = Inr log_params"
    unfolding fit_lognorm_def
    using x_max a b len i fit by (simp add: bg_values[symmetric] Let_def)
  then show ?thesis
    by (simp add: estimate_threshold_def Let_def)
qed

text \<open>
  Claim C4. The threshold is monotonic in \<open>bound_threshold\<close>: for a fixed background
  signal, if the estimator returns a threshold for \<open>bt\<close> and \<open>bt \<le> bt'\<close>, then it
  returns one for \<open>bt'\<close> as well, with the same pseudocount candidate, and that
  threshold is not larger. The quantile function of the library is taken to be
  non-decreasing in the probability, as every inverse CDF is.
\<close>

theorem threshold_monotone:
  assumes mono: "\<forall>p q q'. q \<le> q' \<longrightarrow> lognorm_ppf L q p \<le> lognorm_ppf L q' p"
    and le: "bt \<le> bt'"
    and est: "estimate_threshold L bt signal = Inr (t, ps)"
  shows "\<exists>t'. estimate_threshold L bt' signal = Inr (t', ps) \<and> t' \<le> t"
proof -
  from est obtain p where p: "fit_lognorm L signal = Inr p"
    by (auto simp: estimate_threshold_def split: sum.splits)
  have t: "t = py_round (lognorm_ppf L (1 - bt) p) 5" and ps: "ps = fmin L (\<lambda>x. - lognorm_pdf L x p) 0 / 2"
    using est p by (auto simp: estimate_threshold_def Let_def)
  have "lognorm_ppf L (1 - bt') p \<le> lognorm_ppf L (1 - bt) p"
    using mono[rule_format, of "1 - bt'" "1 - bt" p] le by simp
  then have "py_round (lognorm_ppf L (1 - bt') p) 5 \<le> t"
    unfolding t by (rule py_round_mono)
  then show ?thesis using p ps by (simp add: estimate_threshold_def Let_def)
qed

subsection \<open>The stand-in library at concrete inputs\<close>

lemma not_close_to_zero: "1 / 10 ^ 8 < \<bar>v\<bar> \<Longrightarrow> \<not> np_isclose v 0"
  by (simp add: np_isclose_def)

lemma demo_percentile_3:
  "a \<le> b \<Longrightarrow> b \<le> c \<Longrightarrow> demo_percentile [a, b, c] 99 = Some (b + (49 / 50) * (c - b))"
  by (simp add: demo_percentile_def Let_def)

lemma demo_bic_choice:
  "2 \<le> length X \<Longrightarrow> best_gmm_of (bic_loop demo_lib X [1..<3] None) = Inr 2"
  unfolding range_1_3 by (simp add: best_gmm_of_def gmm_fit_def demo_lib_def Let_def)

lemma demo_fit_lognorm_A: "fit_lognorm demo_lib [1, 2, 3] = Inr (1, 1 / 3, 1)"
proof -
  have p: "percentile demo_lib [1, 2, 3] 99 = Some (149 / 50)"
    using demo_percentile_3[of 1 2 3] by (simp add: demo_lib_def)
  have b: "best_gmm_of (bic_loop demo_lib (map (\<lambda>v. [ln v]) [1, 2, 3]) [1..<3] None) = Inr 2"
    by (rule demo_bic_choice) simp
  have r: "replicate 2 x = [x, x]" for x :: real by (simp add: numeral_2_eq_2)
  have m: "gmm_means demo_lib 2 = [0, 0]" "gmm_covariances demo_lib 2 = [1, 1]"
    by (simp_all add: demo_lib_def r)
  have a: "np_argmax [0, 0] = Some 0" by (simp add: np_argmax_def)
  have f: "lognorm_fit demo_lib [1, 2] 1 1 = Some (1, 1 / 3, 1)"
    by (simp add: demo_lib_def)
  show ?thesis
    unfolding fit_lognorm_def
    using p b by (simp add: np_isclose_def Let_def m a f)
qed

lemma demo_fit_lognorm_B: "fit_lognorm demo_lib [3, 6, 9] = Inr (1, 1, 1)"
proof -
  have p: "percentile demo_lib [3, 6, 9] 99 = Some (447 / 50)"
    using demo_percentile_3[of 3 6 9] by (simp add: demo_lib_def)
  have b: "best_gmm_of (bic_loop demo_lib (map (\<lambda>v. [ln v]) [3, 6, 9]) [1..<3] None) = Inr 2"
    by (rule demo_bic_choice) simp
  have r: "replicate 2 x = [x, x]" for x :: real by (simp add: numeral_2_eq_2)
  have m: "gmm_means demo_lib 2 = [0, 0]" "gmm_covariances demo_lib 2 = [1, 1]"
    by (simp_all add: demo_lib_def r)
  have a: "np_argmax [0, 0] = Some 0" by (simp add: np_argmax_def)
  have f: "lognorm_fit demo_lib [3, 6] 1 1 = Some (1, 1, 1)"
    by (simp add: demo_lib_def)
  show ?thesis
    unfolding fit_lognorm_def
    using p b by (simp add: np_isclose_def Let_def m a f)
qed

lemma demo_mode_A: "fmin demo_lib (\<lambda>x. - lognorm_pdf demo_lib x (1, 1 / 3, 1)) 0 = 3 / 2"
  by (simp add: demo_lib_def power2_eq_square)

lemma demo_mode_B: "fmin demo_lib (\<lambda>x. - lognorm_pdf demo_lib x (1, 1, 1)) 0 = 2"
  by (simp add: demo_lib_def power2_eq_square)

lemma py_round_4_3: "py_round (4 / 3) 5 = 133333 / 100000"
proof -
  have "\<lfloor>400000 / 3 :: real\<rfloor> = 133333" by linarith
  then show ?thesis by (simp add: py_round_def rint_def Let_def)
qed

lemma py_round_23_15: "py_round (23 / 15) 5 = 153333 / 100000"
proof -
  have "\<lfloor>2300000 / 15 :: real\<rfloor> = 153333" by linarith
  then show ?thesis by (simp add: py_round_def rint_def Let_def)
qed

lemma py_round_2: "py_round 2 5 = 2"
  by (simp add: py_round_def rint_def Let_def)

lemma demo_threshold_A_half: "estimate_threshold demo_lib (1 / 2) [1, 2, 3] = Inr (133333 / 100000, 3 / 4)"
  by (simp add: estimate_threshold_def demo_fit_lognorm_A demo_mode_A Let_def)
     (simp add: demo_lib_def py_round_4_3)

lemma demo_threshold_A_loose: "estimate_threshold demo_lib (2 / 5) [1, 2, 3] = Inr (153333 / 100000, 3 / 4)"
  by (simp add: estimate_threshold_def demo_fit_lognorm_A demo_mode_A Let_def)
     (simp add: demo_lib_def py_round_23_15)

lemma demo_threshold_B_half: "estimate_threshold demo_lib (1 / 2) [3, 6, 9] = Inr (2, 1)"
  by (simp add: estimate_threshold_def demo_fit_lognorm_B demo_mode_B Let_def)
     (simp add: demo_lib_def py_round_2)

lemma demo_ppf_mono: "q \<le> q' \<Longrightarrow> lognorm_ppf demo_lib q p \<le> lognorm_ppf demo_lib q' p"
  by (cases p) (simp add: demo_lib_def mult_left_mono)

theorem threshold_rounded_quantile_witness:
  "fit_lognorm demo_lib [1, 2, 3] = Inr (1, 1 / 3, 1)
   \<and> estimate_threshold demo_lib (1 / 2) [1, 2, 3]
       = Inr (py_round (lognorm_ppf demo_lib (1 - 1 / 2) (1, 1 / 3, 1)) 5,
              fmin demo_lib (\<lambda>x. - lognorm_pdf demo_lib x (1, 1 / 3, 1)) 0 / 2)"
proof (rule threshold_rounded_quantile [where bg_values = "[1, 2, 3]" and x_max = "149 / 50"
        and ?g1.0 = 1 and ?g2.0 = 2 and gmm = 2 and i = 0])
  have r: "replicate 2 x = [x, x]" for x :: real by (simp add: numeral_2_eq_2)
  show "[1, 2, 3] = filter (\<lambda>v. \<not> np_isclose v 0) [1, 2, 3 :: real]"
    by (simp add: np_isclose_def)
  show "[1, 2, 3 :: real] \<noteq> []" by simp
  show "percentile demo_lib [1, 2, 3] 99 = Some (149 / 50)"
    using demo_percentile_3[of 1 2 3] by (simp add: demo_lib_def)
  show "gmm_fit demo_lib 1 (map (\<lambda>v. [ln v]) [1, 2, 3]) = Some 1"
    by (simp add: gmm_fit_def demo_lib_def)
  show "gmm_fit demo_lib 2 (map (\<lambda>v. [ln v]) [1, 2, 3]) = Some 2"
    by (simp add: gmm_fit_def demo_lib_def)
  show "2 = (if gmm_bic demo_lib 2 (map (\<lambda>v. [ln v]) [1, 2, 3])
                 < gmm_bic demo_lib 1 (map (\<lambda>v. [ln v]) [1, 2, 3]) then 2 else (1::nat))"
    by (simp add: demo_lib_def)
  show "length (gmm_covariances demo_lib 2) = length (gmm_means demo_lib 2)"
    by (simp add: demo_lib_def)
  show "0 < length (gmm_means demo_lib 2)" by (simp add: demo_lib_def)
  show "\<forall>j<length (gmm_means demo_lib 2). gmm_means demo_lib 2 ! j \<le> gmm_means demo_lib 2 ! 0"
    by (simp add: demo_lib_def)
  show "\<forall>j<0. gmm_means demo_lib 2 ! j < gmm_means demo_lib 2 ! 0" by simp
  show "lognorm_fit demo_lib (filter (\<lambda>v. v < 149 / 50) [1, 2, 3])
          (sqrt (gmm_covariances demo_lib 2 ! 0)) (exp (gmm_means demo_lib 2 ! 0)) = Some (1, 1 / 3, 1)"
    by (simp add: demo_lib_def r)
qed

text \<open>
  Claim C1 as stated, without the rounding, fails: with the stand-in library, the
  background 1, 2, 3 and \<open>bound_threshold = 1/2\<close> the fitted log-normal has the
  parameters (1, 1/3, 1), its inverse CDF at 1/2 is 4/3, and the threshold is 1.33333.
\<close>

theorem threshold_unrounded_counterexample:
  "fit_lognorm demo_lib [1, 2, 3] = Inr (1, 1 / 3, 1)
   \<and> lognorm_ppf demo_lib (1 - 1 / 2) (1, 1 / 3, 1) = 4 / 3
   \<and> estimate_threshold demo_lib (1 / 2) [1, 2, 3] = Inr (133333 / 100000, 3 / 4)
   \<and> (133333 / 100000 :: real) \<noteq> 4 / 3"
  by (simp add: demo_fit_lognorm_A demo_threshold_A_half) (simp add: demo_lib_def)

theorem threshold_monotone_witness:
  "(2 / 5 :: real) \<le> 1 / 2
   \<and> estimate_threshold demo_lib (2 / 5) [1, 2, 3] = Inr (153333 / 100000, 3 / 4)
   \<and> (\<exists>t'. estimate_threshold demo_lib (1 / 2) [1, 2, 3] = Inr (t', 3 / 4) \<and> t' \<le> 153333 / 100000)"
proof -
  have m: "\<forall>p q q'. q \<le> q' \<longrightarrow> lognorm_ppf demo_lib q p \<le> lognorm_ppf demo_lib q' p"
    using demo_ppf_mono by blast
  have le: "(2 / 5 :: real) \<le> 1 / 2" by simp
  show ?thesis
    using threshold_monotone [OF m le demo_threshold_A_loose] le demo_threshold_A_loose by blast
qed

text \<open>
  Claim C6 (an empty background after filtering must give a descriptive, named error).
  The code at a background of two zeros: every value is close to zero, so the filtered
  vector is empty, and it is handed to the library as it is. Whatever the library does,
  the estimator never ends in \<^verbatim>\<open>sys.exit\<close> with a message; with the stand-in library
  the run ends in the exception of the percentile.
\<close>

theorem empty_background_unnamed_failure:
  "filter (\<lambda>v. \<not> np_isclose v 0) [0, 0] = []
   \<and> estimate_threshold L bt [0, 0] \<noteq> Inl (SysExit msg)
   \<and> estimate_threshold demo_lib bt [0, 0] = Inl (Uncaught ''np.percentile'')"
proof -
  have "estimate_threshold demo_lib bt [0, 0] = Inl (Uncaught ''np.percentile'')"
    by (simp add: estimate_threshold_def fit_lognorm_def np_isclose_def)
       (simp add: demo_lib_def demo_percentile_def)
  then show ?thesis
    using estimate_threshold_never_exits[of L bt "[0, 0]" msg] by (simp add: np_isclose_def)
qed

subsection \<open>The pseudocount\<close>

lemma estimate_thresholds_last:
  assumes "estimate_thresholds L bt background_sig conds st = Inr st'"
    and "pseudo_var st = (if pseudos st = [] then None else Some (last (pseudos st)))"
  shows "pseudo_var st' = (if pseudos st' = [] then None else Some (last (pseudos st')))
       \<and> length (pseudos st') = length (pseudos st) + length conds"
  using assms
proof (induction conds arbitrary: st)
  case Nil
  then show ?case by simp
next
  case (Cons bigwig rest)
  from Cons.prems(1) obtain signal threshold pseudo where
    s: "background_sig bigwig = Some signal"
    and e: "estimate_threshold L bt signal = Inr (threshold, pseudo)"
    and r: "estimate_thresholds L bt background_sig rest
              \<lparr>thresholds = (thresholds st)(bigwig \<mapsto> threshold),
               pseudos = pseudos st @ [pseudo], pseudo_var = Some pseudo\<rparr> = Inr st'"
    by (auto split: option.splits sum.splits)
  show ?case using Cons.IH[OF r] by simp
qed

lemma pseudocount_is_last_candidate:
  assumes "estimate_thresholds L bt background_sig conds threshold_state0 = Inr st" and "conds \<noteq> []"
  shows "estimate_pseudocount None st = Inr (last (pseudos st))"
proof -
  have "pseudo_var st = (if pseudos st = [] then None else Some (last (pseudos st)))
      \<and> length (pseudos st) = length (pseudos threshold_state0) + length conds"
    using assms(1) by (rule estimate_thresholds_last) (simp add: threshold_state0_def)
  then show ?thesis using assms(2) by (auto simp: estimate_pseudocount_def threshold_state0_def)
qed

text \<open>
  Claim C2 (without \<^verbatim>\<open>--pseudo\<close> the pseudocount is the mean of the candidates of all
  conditions). The code at two conditions A and B with backgrounds 1, 2, 3 and 3, 6, 9,
  under the stand-in library: the candidates are 3/4 and 1, their mean is 7/8, and the
  pseudocount is 1, the candidate of the last condition.
\<close>

theorem pseudocount_last_not_mean:
  "estimate_thresholds demo_lib (1 / 2) [''A'' \<mapsto> [1, 2, 3], ''B'' \<mapsto> [3, 6, 9]] [''A'', ''B''] threshold_state0
     = Inr \<lparr>thresholds = [''A'' \<mapsto> 133333 / 100000, ''B'' \<mapsto> 2], pseudos = [3 / 4, 1], pseudo_var = Some 1\<rparr>
   \<and> estimate_pseudocount None
        \<lparr>thresholds = [''A'' \<mapsto> 133333 / 100000, ''B'' \<mapsto> 2], pseudos = [3 / 4, 1], pseudo_var = Some 1\<rparr>
     = Inr 1
   \<and> np_mean [3 / 4, 1] = 7 / 8"
  by (simp add: threshold_state0_def demo_threshold_A_half demo_threshold_B_half
        estimate_pseudocount_def np_mean_def)

subsection \<open>Null models\<close>



lemma filter_by_index:
  "filter Q zs = map ((!) zs) (filter (\<lambda>i. Q (zs ! i)) [0..<length zs])"
proof (induction zs rule: rev_induct)
  case Nil
  then show ?case by simp
next
  case (snoc z zs)
  have "filter (\<lambda>i. Q ((zs @ [z]) ! i)) [0..<length zs] = filter (\<lambda>i. Q (zs ! i)) [0..<length zs]"
    by (rule filter_cong) (auto simp: nth_append)
  moreover have "map ((!) (zs @ [z])) (filter (\<lambda>i. Q (zs ! i)) [0..<length zs])
               = map ((!) zs) (filter (\<lambda>i. Q (zs ! i)) [0..<length zs])"
    by (rule map_cong) (auto simp: nth_append)
  ultimately show ?case using snoc by (simp add: nth_append)
qed

lemma boolean_index_zip3:
  assumes "length s1 = length s2" "length gcs = length s1"
  shows "boolean_index s1 (map2 P s1 s2) = map fst (filter (\<lambda>(a, b, g). P a b) (zip s1 (zip s2 gcs)))
       \<and> boolean_index s2 (map2 P s1 s2) = map (fst \<circ> snd) (filter (\<lambda>(a, b, g). P a b) (zip s1 (zip s2 gcs)))
       \<and> boolean_index gcs (map2 P s1 s2) = map (snd \<circ> snd) (filter (\<lambda>(a, b, g). P a b) (zip s1 (zip s2 gcs)))"
proof -
  have l: "length s1 = length s2" "length s2 = length gcs" using assms by simp_all
  from l show ?thesis
  proof (induction s1 s2 gcs rule: list_induct3)
    case Nil
    then show ?case by (simp add: boolean_index_def)
  next
    case (Cons a s1 b s2 g gcs)
    then show ?case by (simp add: boolean_index_def)
  qed
qed

lemma log2fc_values_kept:
  assumes "length scores1 = length scores2" "length gcs = length scores1"
  shows "log2fc_values pseudo scores1 scores2 gcs =
           map (\<lambda>i. [log 2 ((scores1 ! i + pseudo) / (scores2 ! i + pseudo)), gcs ! i])
               (filter (\<lambda>i. \<not> (np_isclose (scores1 ! i) 0 \<and> np_isclose (scores2 ! i) 0))
                  [0..<length scores1])"
proof -
  let ?P = "\<lambda>a b. \<not> (np_isclose a 0 \<and> np_isclose b 0)"
  let ?zs = "zip scores1 (zip scores2 gcs)"
  let ?kept = "filter (\<lambda>(a, b, g). ?P a b) ?zs"
  have len: "length ?zs = length scores1" using assms by simp
  have z: "\<And>i. i < length scores1 \<Longrightarrow> ?zs ! i = (scores1 ! i, scores2 ! i, gcs ! i)"
    using assms by simp
  have "log2fc_values pseudo scores1 scores2 gcs
          = map (\<lambda>(a, b, g). [log 2 ((a + pseudo) / (b + pseudo)), g]) ?kept"
    unfolding log2fc_values_def Let_def
    using boolean_index_zip3[OF assms, of ?P]
    by (simp add: zip_map_map zip_same_conv_map split_def comp_def)
  also have "?kept = map ((!) ?zs) (filter (\<lambda>i. (\<lambda>(a, b, g). ?P a b) (?zs ! i)) [0..<length ?zs])"
    by (rule filter_by_index)
  also have "filter (\<lambda>i. (\<lambda>(a, b, g). ?P a b) (?zs ! i)) [0..<length ?zs]
           = filter (\<lambda>i. ?P (scores1 ! i) (scores2 ! i)) [0..<length scores1]"
    unfolding len by (rule filter_cong) (auto simp: z)
  also have "map (\<lambda>(a, b, g). [log 2 ((a + pseudo) / (b + pseudo)), g])
               (map ((!) ?zs) (filter (\<lambda>i. ?P (scores1 ! i) (scores2 ! i)) [0..<length scores1]))
           = map (\<lambda>i. [log 2 ((scores1 ! i + pseudo) / (scores2 ! i + pseudo)), gcs ! i])
               (filter (\<lambda>i. ?P (scores1 ! i) (scores2 ! i)) [0..<length scores1])"
    unfolding map_map by (rule map_cong) (auto simp: z)
  finally show ?thesis .
qed



lemma zero_message_names:
  "sublist bigwig1 (zero_message bigwig1 bigwig2) \<and> sublist bigwig2 (zero_message bigwig1 bigwig2)"
proof -
  have "zero_message bigwig1 bigwig2 = ''ERROR: Bigwig values of conditions '' @ bigwig1 @
          ('' and '' @ bigwig2 @ '' are equal or contain only zeroes - please check your input data.'')"
    by (simp add: zero_message_def)
  then have 1: "sublist bigwig1 (zero_message bigwig1 bigwig2)"
    unfolding sublist_def by blast
  have "zero_message bigwig1 bigwig2 = (''ERROR: Bigwig values of conditions '' @ bigwig1 @ '' and '') @ bigwig2 @
          '' are equal or contain only zeroes - please check your input data.''"
    by (simp add: zero_message_def)
  then have 2: "sublist bigwig2 (zero_message bigwig1 bigwig2)"
    unfolding sublist_def by blast
  show ?thesis using 1 2 by simp
qed

lemma fit_null_model_zero:
  assumes "length scores1 = length scores2" "length gcs = length scores1"
    and "filter (\<lambda>i. \<not> (np_isclose (scores1 ! i) 0 \<and> np_isclose (scores2 ! i) 0)) [0..<length scores1] = []"
  shows "fit_null_model L pseudo bigwig1 bigwig2 scores1 scores2 gcs
           = Inl (SysExit (zero_message bigwig1 bigwig2))"
proof -
  have "log2fc_values pseudo scores1 scores2 gcs = []"
    using log2fc_values_kept[OF assms(1,2)] assms(3) by simp
  then show ?thesis using assms(1,2) by (simp add: fit_null_model_def)
qed

lemma fit_models_str_hash: "fit_models L (E\<lparr>str_hash := h\<rparr>) a = fit_models L E a"
  by (simp add: fit_models_def Let_def cong: sum.case_cong if_cong)

lemma run_abort: "fit_models L E a = Inl e \<Longrightarrow> run_bindetect L E a = Inl e"
  by (simp add: run_bindetect_def)


lemma range_0_2: "[0..<2] = [0, 1]"
  by (simp add: upt_conv_Cons)

lemma close_0: "np_isclose 0 0" and not_close_1: "\<not> np_isclose 1 0"
  by (simp_all add: np_isclose_def)



lemma empty_background_library_raises:
  assumes "filter (\<lambda>v. \<not> np_isclose v 0) signal = []"
    and "percentile L [] 99 = None \<or> gmm_fit L 1 [] = None"
  shows "\<exists>w. estimate_threshold L bt signal = Inl (Uncaught w)"
  using assms unfolding estimate_threshold_def fit_lognorm_def range_1_3
  by (auto simp: best_gmm_of_def Let_def split: option.splits)

lemma combinations2_members:
  "(x, y) \<in> set (combinations2 xs) \<Longrightarrow> x \<in> set xs \<and> y \<in> set xs"
  by (induction xs) auto

lemma check_background_error:
  "check_background background_sig conds = Inl e \<Longrightarrow> \<exists>w. e = Uncaught w"
  by (induction conds) (auto split: option.splits)

lemma estimate_thresholds_error:
  "estimate_thresholds L bt background_sig conds st = Inl e \<Longrightarrow> \<exists>w. e = Uncaught w"
proof (induction conds arbitrary: st)
  case Nil
  then show ?case by simp
next
  case (Cons bigwig rest)
  show ?case
  proof (cases "background_sig bigwig")
    case None
    then show ?thesis using Cons.prems by auto
  next
    case (Some signal)
    show ?thesis
    proof (cases "estimate_threshold L bt signal")
      case (Inl e0)
      then have "e = e0" using Cons.prems Some by simp
      moreover obtain w where "e0 = Uncaught w"
        using Inl estimate_threshold_never_exits[of L bt signal] by (cases e0) auto
      ultimately show ?thesis by simp
    next
      case (Inr tp)
      then show ?thesis using Cons.prems Some Cons.IH by (auto split: prod.splits)
    qed
  qed
qed

lemma estimate_thresholds_fails:
  assumes "bigwig \<in> set conds" "background_sig bigwig = Some signal"
    and "estimate_threshold L bt signal = Inl e0"
  shows "\<exists>e. estimate_thresholds L bt background_sig conds st = Inl e"
  using assms(1)
proof (induction conds arbitrary: st)
  case Nil
  then show ?case by simp
next
  case (Cons c rest)
  show ?case
  proof (cases "c = bigwig")
    case True
    then show ?thesis using assms(2,3) by simp
  next
    case False
    then have "bigwig \<in> set rest" using Cons.prems by simp
    from Cons.IH[OF this] show ?thesis
      by (auto split: option.splits sum.splits)
  qed
qed

lemma zero_kept_filtered_empty:
  assumes "filter (\<lambda>i. \<not> (np_isclose (scores1 ! i) 0 \<and> np_isclose (scores2 ! i) 0))
             [0..<length scores1] = []"
  shows "filter (\<lambda>v. \<not> np_isclose v 0) scores1 = []"
proof -
  have "\<forall>i<length scores1. np_isclose (scores1 ! i) 0"
    using assms by (auto simp: filter_empty_conv)
  then have "\<forall>v\<in>set scores1. np_isclose v 0" by (auto simp: in_set_conv_nth)
  then show ?thesis by (simp add: filter_empty_conv)
qed

text \<open>
  Claim C5 (a pair of conditions with no background position left must abort the run
  with a fatal error that names both conditions). The code at such a pair, with aligned
  background arrays: no position is left only if every background value of both
  conditions is close to zero, so the filtered background of the first condition is
  empty, and the thresholds are estimated on it before any pair is looked at. With a
  library that rejects an empty sample the run ends in an uncaught exception, which
  names no condition. The step of the pair loop, taken by itself, would exit with the
  message that names both conditions; the run does not end in that exit.
\<close>

theorem zero_positions_guard_unreached:
  assumes pair: "(bigwig1, bigwig2) \<in> set (combinations2 (resolve_cond_names (path_prefix E) a))"
    and s1: "background_signal E bigwig1 = Some scores1"
    and s2: "background_signal E bigwig2 = Some scores2"
    and len: "length scores1 = length scores2" "length (background_gc E) = length scores1"
    and zero: "filter (\<lambda>i. \<not> (np_isclose (scores1 ! i) 0 \<and> np_isclose (scores2 ! i) 0))
                 [0..<length scores1] = []"
    and rejects: "percentile L [] 99 = None \<or> gmm_fit L 1 [] = None"
  shows "filter (\<lambda>v. \<not> np_isclose v 0) scores1 = []
       \<and> (\<exists>w. run_bindetect L E a = Inl (Uncaught w))
       \<and> run_bindetect L E a \<noteq> Inl (SysExit (zero_message bigwig1 bigwig2))
       \<and> fit_null_model L pseudo bigwig1 bigwig2 scores1 scores2 (background_gc E)
           = Inl (SysExit (zero_message bigwig1 bigwig2))"
proof -
  have guard: "fit_null_model L pseudo bigwig1 bigwig2 scores1 scores2 (background_gc E)
           = Inl (SysExit (zero_message bigwig1 bigwig2))"
    using len zero by (rule fit_null_model_zero)
  let ?conds = "resolve_cond_names (path_prefix E) a"
  have empty: "filter (\<lambda>v. \<not> np_isclose v 0) scores1 = []"
    using zero by (rule zero_kept_filtered_empty)
  obtain w1 where w1: "estimate_threshold L (arg_bound_threshold a) scores1 = Inl (Uncaught w1)"
    using empty_background_library_raises[OF empty rejects] by blast
  have mem: "bigwig1 \<in> set ?conds" using combinations2_members[OF pair] by simp
  obtain e where e: "estimate_thresholds L (arg_bound_threshold a) (background_signal E) ?conds
                       threshold_state0 = Inl e"
    using estimate_thresholds_fails[where background_sig = "background_signal E" and st = threshold_state0,
            OF mem s1 w1] by blast
  then obtain w where w: "e = Uncaught w" using estimate_thresholds_error by blast
  have "\<exists>w'. fit_models L E a = Inl (Uncaught w')"
  proof (cases "check_background (background_signal E) ?conds")
    case (Inl e')
    then obtain w' where "e' = Uncaught w'" using check_background_error by blast
    then show ?thesis using Inl by (simp add: fit_models_def Let_def)
  next
    case (Inr u)
    then show ?thesis using e w by (simp add: fit_models_def Let_def)
  qed
  then obtain w' where "fit_models L E a = Inl (Uncaught w')" by blast
  then have "run_bindetect L E a = Inl (Uncaught w')" by (rule run_abort)
  then show ?thesis using empty guard by simp
qed

theorem zero_positions_guard_unreached_witness:
  "filter (\<lambda>v. \<not> np_isclose v 0) [0, 0] = []
   \<and> (\<exists>w. run_bindetect demo_lib zero_env two_args = Inl (Uncaught w))
   \<and> run_bindetect demo_lib zero_env two_args \<noteq> Inl (SysExit (zero_message ''A'' ''B''))
   \<and> fit_null_model demo_lib 1 ''A'' ''B'' [0, 0] [0, 0] (background_gc zero_env)
       = Inl (SysExit (zero_message ''A'' ''B''))"
proof (rule zero_positions_guard_unreached)
  show "(''A'', ''B'') \<in> set (combinations2 (resolve_cond_names (path_prefix zero_env) two_args))"
    by (simp add: zero_env_def two_args_def demo_env_def resolve_cond_names_def)
  show "background_signal zero_env ''A'' = Some [0, 0]" by (simp add: zero_env_def demo_env_def)
  show "background_signal zero_env ''B'' = Some [0, 0]" by (simp add: zero_env_def demo_env_def)
  show "length [0, 0 :: real] = length [0, 0 :: real]" by simp
  show "length (background_gc zero_env) = length [0, 0 :: real]" by (simp add: zero_env_def demo_env_def)
  show "filter (\<lambda>i. \<not> (np_isclose ([0, 0] ! i) 0 \<and> np_isclose ([0, 0] ! i) 0)) [0..<length [0, 0 :: real]] = []"
    using range_0_2 by (simp add: close_0)
  show "percentile demo_lib [] 99 = None \<or> gmm_fit demo_lib 1 [] = None"
    by (simp add: demo_lib_def demo_percentile_def)
qed

subsection \<open>The result table\<close>

lemma map_cells_Some:
  "map_cells f i rs = Some rs' \<longleftrightarrow>
     (\<forall>r\<in>set rs. i < length (snd r) \<and> f (snd r ! i) \<noteq> None)
     \<and> rs' = map (\<lambda>r. (fst r, (snd r)[i := the (f (snd r ! i))])) rs"
proof (induction rs arbitrary: rs')
  case Nil
  then show ?case by auto
next
  case (Cons r rs)
  obtain name cells where r: "r = (name, cells)" by (cases r)
  show ?case using Cons.IH by (auto simp: r split: option.splits)
qed

lemma map_cells_None:
  "map_cells f i rs = None \<longleftrightarrow> \<not> (\<forall>r\<in>set rs. i < length (snd r) \<and> f (snd r ! i) \<noteq> None)"
proof -
  have "map_cells f i rs \<noteq> None \<longleftrightarrow> (\<forall>r\<in>set rs. i < length (snd r) \<and> f (snd r ! i) \<noteq> None)"
    using map_cells_Some[of f i rs] by auto
  then show ?thesis by blast
qed

lemma map_column_columns: "map_column f col t = Inr t' \<Longrightarrow> columns t' = columns t"
  by (auto simp: map_column_def split: option.splits)

lemma foldE_columns:
  assumes "\<And>x t t'. F x t = Inr t' \<Longrightarrow> columns t' = columns t"
  shows "foldE F xs t = Inr t' \<Longrightarrow> columns t' = columns t"
proof (induction xs arbitrary: t)
  case Nil
  then show ?case by simp
next
  case (Cons x xs)
  then show ?case using assms by (auto split: sum.splits)
qed

lemma condition_specific_columns: "condition_specific conds t = Inr t' \<Longrightarrow> columns t' = columns t"
proof -
  assume a: "condition_specific conds t = Inr t'"
  then obtain t0 where t0: "map_column cell_int ''total_tfbs'' t = Inr t0"
    and f: "foldE (\<lambda>condition. map_column cell_int (condition @ ''_bound'')) conds t0 = Inr t'"
    by (auto simp: condition_specific_def split: sum.splits)
  have "columns t' = columns t0"
    using f by (rule foldE_columns[rotated]) (rule map_column_columns)
  then show ?thesis using map_column_columns[OF t0] by simp
qed

lemma format_comparisons_columns:
  "format_comparisons fmt comparisons t = Inr t' \<Longrightarrow> columns t' = columns t"
  unfolding format_comparisons_def
proof (erule foldE_columns[rotated])
  fix x :: "string \<times> string" and t0 t1 :: frame
  assume "(case x of (cond1, cond2) \<Rightarrow> \<lambda>t0. let base = cond1 @ ''_'' @ cond2
            in case map_column cell_round5 (base @ ''_change'') t0 of Inl e \<Rightarrow> Inl e
               | Inr t1 \<Rightarrow> map_column (cell_format fmt) (base @ ''_pvalue'') t1) t0 = Inr t1"
  then show "columns t1 = columns t0"
    by (auto simp: Let_def split: prod.splits sum.splits dest!: map_column_columns)
qed

lemma pd_concat_process:
  "pd_concat (map (\<lambda>name. process_tfbs stats name conds comparisons) names)
     = (if names = [] then Inl (Uncaught ''pd.concat'')
        else Inr \<lparr>columns = info_columns conds comparisons,
                  rows = map (\<lambda>name. (name, map (\<lambda>col. FloatCell (stats name col)) (info_columns conds comparisons))) names\<rparr>)"
proof (cases names)
  case Nil
  then show ?thesis by (simp add: pd_concat_def)
next
  case (Cons n ns)
  have "concat (map (\<lambda>name. rows (process_tfbs stats name conds comparisons)) ms)
      = map (\<lambda>name. (name, map (\<lambda>col. FloatCell (stats name col)) (info_columns conds comparisons))) ms" for ms
    by (induction ms) (simp_all add: process_tfbs_def Let_def)
  from this[of "n # ns"] show ?thesis
    using Cons by (simp add: pd_concat_def process_tfbs_def Let_def comp_def)
qed

lemma aggregate_columns:
  assumes "aggregate E a m = Inr out"
  shows "columns (out_excel out)
           = info_columns (resolve_cond_names (path_prefix E) a)
               (combinations2 (resolve_cond_names (path_prefix E) a))
       \<and> columns (out_table out)
           = ''TF_name'' # info_columns (resolve_cond_names (path_prefix E) a)
               (combinations2 (resolve_cond_names (path_prefix E) a))
       \<and> out_distance out = (if 1 < length (arg_signals a)
                              then Some (overlap_to_distance E (TF_overlaps E)) else None)"
proof -
  let ?conds = "resolve_cond_names (path_prefix E) a"
  let ?comps = "combinations2 ?conds"
  from assms obtain info_table excel formatted tbl where
    c: "pd_concat (map (\<lambda>name. process_tfbs (tf_stats E (fit_thresholds m) (fit_pseudo m) (fit_log2fc_params m))
            name ?conds ?comps) (list_of_set (str_hash E) (motif_names_all E))) = Inr info_table"
    and cs: "condition_specific ?conds info_table = Inr excel"
    and fc: "format_comparisons (format_5E E) ?comps excel = Inr formatted"
    and ins: "insert_TF_name formatted = Inr tbl"
    and out: "out = \<lparr>out_models = m, out_excel = excel, out_table = tbl,
                     out_distance = (if 1 < length (arg_signals a)
                                     then Some (overlap_to_distance E (TF_overlaps E)) else None)\<rparr>"
    by (auto simp: aggregate_def Let_def split: sum.splits)
  have 1: "columns info_table = info_columns ?conds ?comps"
    using c by (auto simp: pd_concat_process split: if_splits)
  have 2: "columns excel = columns info_table" using cs by (rule condition_specific_columns)
  have 3: "columns formatted = columns excel" using fc by (rule format_comparisons_columns)
  have 4: "columns tbl = ''TF_name'' # columns formatted"
    using ins by (auto simp: insert_TF_name_def split: if_splits)
  show ?thesis using 1 2 3 4 out by simp
qed

lemma suffix_last: "suffix xs ys \<Longrightarrow> xs \<noteq> [] \<Longrightarrow> last ys = last xs"
  by (auto simp: suffix_def)

lemma not_comparison_column:
  "\<not> comparison_column ''TF_name''" "\<not> comparison_column ''total_tfbs''"
  "\<not> comparison_column (cond @ ''_threshold'')" "\<not> comparison_column (cond @ ''_bound'')"
proof -
  have eq: "suffix xs ys \<Longrightarrow> length ys \<le> length xs \<Longrightarrow> xs = ys" for xs ys :: string
    by (auto simp: suffix_def)
  show "\<not> comparison_column ''TF_name''"
    using eq[of "''_change''" "''TF_name''"] eq[of "''_pvalue''" "''TF_name''"]
    by (auto simp: comparison_column_def)
  show "\<not> comparison_column ''total_tfbs''"
    by (auto simp: comparison_column_def dest: suffix_last)
  have "last (cond @ ''_threshold'') = CHR ''d''" "last (cond @ ''_bound'') = CHR ''d''"
    by simp_all
  then show "\<not> comparison_column (cond @ ''_threshold'')" "\<not> comparison_column (cond @ ''_bound'')"
    by (auto simp: comparison_column_def dest!: suffix_last)
qed

lemma info_columns_single:
  "info_columns [cond] [] = [''total_tfbs'', cond @ ''_threshold'', cond @ ''_bound'']"
  by (simp add: info_columns_def itertools_product_def)

lemma aggregate_overlap: "aggregate (E\<lparr>overlap_to_distance := d\<rparr>) a m
   = (case aggregate E a m of Inl e \<Rightarrow> Inl e
      | Inr out \<Rightarrow> Inr (out\<lparr>out_distance := (if 1 < length (arg_signals a) then Some (d (TF_overlaps E)) else None)\<rparr>))"
  by (simp add: aggregate_def Let_def split: sum.splits)

lemma fit_models_overlap: "fit_models L (E\<lparr>overlap_to_distance := d\<rparr>) a = fit_models L E a"
  by (simp add: fit_models_def Let_def cong: sum.case_cong if_cong)

text \<open>
  Claim C7. When exactly one condition is given (one signal, one condition name), there
  is no pair of conditions to compare; no column label of the controller's
  \<^verbatim>\<open>info_columns\<close> and none of the tables of a completed run ends in \<open>_change\<close> or
  \<open>_pvalue\<close>; and the distance matrix is neither computed nor written: the run has no
  distance output, and its outcome is the same whatever \<^verbatim>\<open>overlap_to_distance\<close> would
  compute.
\<close>

theorem single_condition_table:
  assumes one_signal: "length (arg_signals a) = 1"
    and one_name: "length (resolve_cond_names (path_prefix E) a) = 1"
    and run: "run_bindetect L E a = Inr out"
  shows "combinations2 (resolve_cond_names (path_prefix E) a) = []
       \<and> filter comparison_column
           (info_columns (resolve_cond_names (path_prefix E) a)
              (combinations2 (resolve_cond_names (path_prefix E) a))) = []
       \<and> filter comparison_column (columns (out_table out)) = []
       \<and> filter comparison_column (columns (out_excel out)) = []
       \<and> out_distance out = None
       \<and> run_bindetect L (E\<lparr>overlap_to_distance := d\<rparr>) a = Inr out"
proof -
  from one_name obtain cond where conds: "resolve_cond_names (path_prefix E) a = [cond]"
    by (cases "resolve_cond_names (path_prefix E) a") auto
  from run obtain m where m: "fit_models L E a = Inr m" and agg: "aggregate E a m = Inr out"
    by (auto simp: run_bindetect_def split: sum.splits)
  note cols = aggregate_columns[OF agg, unfolded conds]
  have dist: "out_distance out = None" using cols one_signal by simp
  have "aggregate (E\<lparr>overlap_to_distance := d\<rparr>) a m = Inr out"
    using agg dist one_signal by (simp add: aggregate_overlap)
  then have "run_bindetect L (E\<lparr>overlap_to_distance := d\<rparr>) a = Inr out"
    using m by (simp add: run_bindetect_def fit_models_overlap)
  then show ?thesis
    using cols dist by (simp add: conds info_columns_single not_comparison_column)
qed

lemma one_fit: "fit_models demo_lib (one_env h) one_args
   = Inr \<lparr>fit_thresholds = [''A'' \<mapsto> 133333 / 100000], fit_pseudo = 3 / 4, fit_log2fc_params = Map.empty\<rparr>"
  by (simp add: fit_models_def one_env_def one_args_def demo_env_def resolve_cond_names_def
        threshold_state0_def demo_threshold_A_half estimate_pseudocount_def)

lemma one_aggregate_A:
  "aggregate (one_env hash_A_first) one_args m
   = Inr \<lparr>out_models = m,
          out_excel = \<lparr>columns = [''total_tfbs'', ''A_threshold'', ''A_bound''],
                       rows = [(''A'', [IntCell (py_int (fit_pseudo m)), FloatCell (fit_pseudo m), IntCell (py_int (fit_pseudo m))]),
                               (''B'', [IntCell (py_int (fit_pseudo m)), FloatCell (fit_pseudo m), IntCell (py_int (fit_pseudo m))])]\<rparr>,
          out_table = \<lparr>columns = [''TF_name'', ''total_tfbs'', ''A_threshold'', ''A_bound''],
                       rows = [(''A'', [StrCell ''A'', IntCell (py_int (fit_pseudo m)), FloatCell (fit_pseudo m), IntCell (py_int (fit_pseudo m))]),
                               (''B'', [StrCell ''B'', IntCell (py_int (fit_pseudo m)), FloatCell (fit_pseudo m), IntCell (py_int (fit_pseudo m))])]\<rparr>,
          out_distance = None\<rparr>"
  by (simp add: aggregate_def one_env_def one_args_def demo_env_def resolve_cond_names_def
        list_of_set_def hash_A_first_def process_tfbs_def info_columns_def itertools_product_def
        pd_concat_def condition_specific_def map_column_def format_comparisons_def insert_TF_name_def)

lemma one_aggregate_B:
  "aggregate (one_env hash_B_first) one_args m
   = Inr \<lparr>out_models = m,
          out_excel = \<lparr>columns = [''total_tfbs'', ''A_threshold'', ''A_bound''],
                       rows = [(''B'', [IntCell (py_int (fit_pseudo m)), FloatCell (fit_pseudo m), IntCell (py_int (fit_pseudo m))]),
                               (''A'', [IntCell (py_int (fit_pseudo m)), FloatCell (fit_pseudo m), IntCell (py_int (fit_pseudo m))])]\<rparr>,
          out_table = \<lparr>columns = [''TF_name'', ''total_tfbs'', ''A_threshold'', ''A_bound''],
                       rows = [(''B'', [StrCell ''B'', IntCell (py_int (fit_pseudo m)), FloatCell (fit_pseudo m), IntCell (py_int (fit_pseudo m))]),
                               (''A'', [StrCell ''A'', IntCell (py_int (fit_pseudo m)), FloatCell (fit_pseudo m), IntCell (py_int (fit_pseudo m))])]\<rparr>,
          out_distance = None\<rparr>"
  by (simp add: aggregate_def one_env_def one_args_def demo_env_def resolve_cond_names_def
        list_of_set_def hash_B_first_def process_tfbs_def info_columns_def itertools_product_def
        pd_concat_def condition_specific_def map_column_def format_comparisons_def insert_TF_name_def)

theorem single_condition_table_witness:
  "\<exists>out. run_bindetect demo_lib (one_env hash_A_first) one_args = Inr out
     \<and> columns (out_table out) = [''TF_name'', ''total_tfbs'', ''A_threshold'', ''A_bound'']
     \<and> filter comparison_column (columns (out_table out)) = []
     \<and> filter comparison_column (columns (out_excel out)) = []
     \<and> out_distance out = None
     \<and> run_bindetect demo_lib (one_env hash_A_first\<lparr>overlap_to_distance := (\<lambda>ov. ([[0]], [''A'']))\<rparr>) one_args = Inr out"
proof -
  obtain out where out: "run_bindetect demo_lib (one_env hash_A_first) one_args = Inr out"
    and cols: "columns (out_table out) = [''TF_name'', ''total_tfbs'', ''A_threshold'', ''A_bound'']"
    by (simp add: run_bindetect_def one_fit one_aggregate_A)
  have s: "length (arg_signals one_args) = 1" by (simp add: one_args_def)
  have n: "length (resolve_cond_names (path_prefix (one_env hash_A_first)) one_args) = 1"
    by (simp add: one_args_def resolve_cond_names_def)
  show ?thesis
    using single_condition_table [OF s n out, of "\<lambda>ov. ([[0]], [''A''])"] out cols by blast
qed

subsection \<open>Row order\<close>

lemma map_cells_ok:
  "\<forall>r\<in>set rs. i < length (snd r) \<and> f (snd r ! i) \<noteq> None \<Longrightarrow>
   map_cells f i rs = Some (map (\<lambda>r. (fst r, (snd r)[i := the (f (snd r ! i))])) rs)"
proof (induction rs)
  case Nil
  then show ?case by simp
next
  case (Cons r rs)
  obtain name cells where r: "r = (name, cells)" by (cases r)
  show ?case using Cons by (auto simp: r)
qed

lemma map_column_rel:
  assumes "same_up_to_row_order t1 t2"
  shows "rel_sum (=) same_up_to_row_order (map_column f col t1) (map_column f col t2)"
proof (cases "index_of col (columns t1)")
  case None
  then show ?thesis using assms by (simp add: map_column_def same_up_to_row_order_def)
next
  case (Some i)
  have c: "columns t1 = columns t2" and r: "mset (rows t1) = mset (rows t2)"
    using assms by (simp_all add: same_up_to_row_order_def)
  have s: "set (rows t1) = set (rows t2)" using r by (rule mset_eq_setD)
  show ?thesis
  proof (cases "map_cells f i (rows t1)")
    case None
    then have "map_cells f i (rows t2) = None" unfolding map_cells_None s .
    then show ?thesis using None Some c by (simp add: map_column_def)
  next
    case (Some rs1)
    then have ok: "\<forall>r\<in>set (rows t1). i < length (snd r) \<and> f (snd r ! i) \<noteq> None"
      and rs1: "rs1 = map (\<lambda>r. (fst r, (snd r)[i := the (f (snd r ! i))])) (rows t1)"
      by (simp_all add: map_cells_Some)
    have ok2: "\<forall>r\<in>set (rows t2). i < length (snd r) \<and> f (snd r ! i) \<noteq> None"
      using ok unfolding s .
    have rs2: "map_cells f i (rows t2) = Some (map (\<lambda>r. (fst r, (snd r)[i := the (f (snd r ! i))])) (rows t2))"
      using ok2 by (rule map_cells_ok)
    have "mset rs1 = mset (map (\<lambda>r. (fst r, (snd r)[i := the (f (snd r ! i))])) (rows t2))"
      unfolding rs1 by (simp add: r)
    then show ?thesis
      using Some rs2 \<open>index_of col (columns t1) = Some i\<close> c
      by (simp add: map_column_def same_up_to_row_order_def)
  qed
qed

lemma foldE_rel:
  assumes "\<And>x t1 t2. same_up_to_row_order t1 t2 \<Longrightarrow> rel_sum (=) same_up_to_row_order (F x t1) (F x t2)"
    and "same_up_to_row_order t1 t2"
  shows "rel_sum (=) same_up_to_row_order (foldE F xs t1) (foldE F xs t2)"
  using assms(2)
proof (induction xs arbitrary: t1 t2)
  case Nil
  then show ?case by simp
next
  case (Cons x xs)
  have r: "rel_sum (=) same_up_to_row_order (F x t1) (F x t2)"
    by (rule assms(1)[OF Cons.prems])
  show ?case
  proof (cases "F x t1")
    case (Inl e1)
    then show ?thesis using r by (cases "F x t2") simp_all
  next
    case (Inr u1)
    then obtain u2 where u2: "F x t2 = Inr u2" "same_up_to_row_order u1 u2"
      using r by (cases "F x t2") simp_all
    then show ?thesis using Inr Cons.IH[of u1 u2] by simp
  qed
qed

lemma bind_rel:
  assumes "rel_sum (=) same_up_to_row_order r1 r2"
    and "\<And>t1 t2. same_up_to_row_order t1 t2 \<Longrightarrow> rel_sum (=) R (G t1) (G t2)"
  shows "rel_sum (=) R (case r1 of Inl e \<Rightarrow> Inl e | Inr t \<Rightarrow> G t) (case r2 of Inl e \<Rightarrow> Inl e | Inr t \<Rightarrow> G t)"
proof (cases r1)
  case (Inl e1)
  then show ?thesis using assms(1) by (cases r2) simp_all
next
  case (Inr u1)
  then obtain u2 where u2: "r2 = Inr u2" "same_up_to_row_order u1 u2"
    using assms(1) by (cases r2) simp_all
  then show ?thesis using Inr assms(2)[of u1 u2] by simp
qed

lemma condition_specific_rel:
  assumes "same_up_to_row_order t1 t2"
  shows "rel_sum (=) same_up_to_row_order (condition_specific conds t1) (condition_specific conds t2)"
  unfolding condition_specific_def
  by (rule bind_rel[OF map_column_rel[OF assms]]) (rule foldE_rel[OF map_column_rel])

lemma format_comparisons_rel:
  assumes "same_up_to_row_order t1 t2"
  shows "rel_sum (=) same_up_to_row_order (format_comparisons fmt comps t1) (format_comparisons fmt comps t2)"
  unfolding format_comparisons_def
proof (rule foldE_rel[OF _ assms])
  fix x :: "string \<times> string" and u1 u2 :: frame
  assume u: "same_up_to_row_order u1 u2"
  obtain cond1 cond2 where x: "x = (cond1, cond2)" by (cases x)
  show "rel_sum (=) same_up_to_row_order
          ((case x of (cond1, cond2) \<Rightarrow> \<lambda>t0. let base = cond1 @ ''_'' @ cond2
              in case map_column cell_round5 (base @ ''_change'') t0 of Inl e \<Rightarrow> Inl e
                 | Inr t1 \<Rightarrow> map_column (cell_format fmt) (base @ ''_pvalue'') t1) u1)
          ((case x of (cond1, cond2) \<Rightarrow> \<lambda>t0. let base = cond1 @ ''_'' @ cond2
              in case map_column cell_round5 (base @ ''_change'') t0 of Inl e \<Rightarrow> Inl e
                 | Inr t1 \<Rightarrow> map_column (cell_format fmt) (base @ ''_pvalue'') t1) u2)"
    unfolding x prod.case Let_def
    by (rule bind_rel[OF map_column_rel[OF u]]) (rule map_column_rel)
qed

lemma insert_TF_name_rel:
  assumes "same_up_to_row_order t1 t2"
  shows "rel_sum (=) same_up_to_row_order (insert_TF_name t1) (insert_TF_name t2)"
proof -
  have c: "columns t1 = columns t2" and r: "mset (rows t1) = mset (rows t2)"
    using assms by (simp_all add: same_up_to_row_order_def)
  have "mset (map (\<lambda>(name, cells). (name, StrCell name # cells)) (rows t1))
      = mset (map (\<lambda>(name, cells). (name, StrCell name # cells)) (rows t2))"
    by (simp add: r)
  then show ?thesis using c by (simp add: insert_TF_name_def same_up_to_row_order_def)
qed

lemma pd_concat_rel:
  assumes "mset names1 = mset names2"
  shows "rel_sum (=) same_up_to_row_order
           (pd_concat (map (\<lambda>name. process_tfbs stats name conds comps) names1))
           (pd_concat (map (\<lambda>name. process_tfbs stats name conds comps) names2))"
proof -
  have e: "names1 = [] \<longleftrightarrow> names2 = []" using assms by (metis mset_zero_iff)
  have "mset (map (\<lambda>name. (name, map (\<lambda>col. FloatCell (stats name col)) (info_columns conds comps))) names1)
      = mset (map (\<lambda>name. (name, map (\<lambda>col. FloatCell (stats name col)) (info_columns conds comps))) names2)"
    by (simp add: assms)
  then show ?thesis using e by (simp add: pd_concat_process same_up_to_row_order_def)
qed

lemma rel_sum_Inr:
  "rel_sum (=) R (Inr x) r \<Longrightarrow> \<exists>y. r = Inr y \<and> R x y"
  by (cases r) simp_all

lemma aggregate_hash:
  assumes "aggregate (E\<lparr>str_hash := h1\<rparr>) a m = Inr out1"
  shows "\<exists>out2. aggregate (E\<lparr>str_hash := h2\<rparr>) a m = Inr out2
           \<and> out_models out2 = out_models out1
           \<and> same_up_to_row_order (out_excel out1) (out_excel out2)
           \<and> same_up_to_row_order (out_table out1) (out_table out2)
           \<and> out_distance out2 = out_distance out1"
proof -
  let ?conds = "resolve_cond_names (path_prefix E) a"
  let ?comps = "combinations2 ?conds"
  let ?P = "\<lambda>name. process_tfbs (tf_stats E (fit_thresholds m) (fit_pseudo m) (fit_log2fc_params m))
            name ?conds ?comps"
  let ?d = "if 1 < length (arg_signals a) then Some (overlap_to_distance E (TF_overlaps E)) else None"
  from assms obtain info1 excel1 formatted1 tbl1 where
    c1: "pd_concat (map ?P (list_of_set h1 (motif_names_all E))) = Inr info1"
    and cs1: "condition_specific ?conds info1 = Inr excel1"
    and fc1: "format_comparisons (format_5E E) ?comps excel1 = Inr formatted1"
    and ins1: "insert_TF_name formatted1 = Inr tbl1"
    and out1: "out1 = \<lparr>out_models = m, out_excel = excel1, out_table = tbl1, out_distance = ?d\<rparr>"
    by (auto simp: aggregate_def Let_def split: sum.splits)
  have "mset (list_of_set h1 (motif_names_all E)) = mset (list_of_set h2 (motif_names_all E))"
    by (simp add: mset_list_of_set)
  from pd_concat_rel[OF this, of "tf_stats E (fit_thresholds m) (fit_pseudo m) (fit_log2fc_params m)" ?conds ?comps]
  obtain info2 where c2: "pd_concat (map ?P (list_of_set h2 (motif_names_all E))) = Inr info2"
    and i: "same_up_to_row_order info1 info2"
    unfolding c1 by (auto dest: rel_sum_Inr)
  from condition_specific_rel[OF i, of ?conds]
  obtain excel2 where cs2: "condition_specific ?conds info2 = Inr excel2"
    and e: "same_up_to_row_order excel1 excel2"
    unfolding cs1 by (auto dest: rel_sum_Inr)
  from format_comparisons_rel[OF e, of "format_5E E" ?comps]
  obtain formatted2 where fc2: "format_comparisons (format_5E E) ?comps excel2 = Inr formatted2"
    and f: "same_up_to_row_order formatted1 formatted2"
    unfolding fc1 by (auto dest: rel_sum_Inr)
  from insert_TF_name_rel[OF f]
  obtain tbl2 where ins2: "insert_TF_name formatted2 = Inr tbl2"
    and t: "same_up_to_row_order tbl1 tbl2"
    unfolding ins1 by (auto dest: rel_sum_Inr)
  have "aggregate (E\<lparr>str_hash := h2\<rparr>) a m
          = Inr \<lparr>out_models = m, out_excel = excel2, out_table = tbl2, out_distance = ?d\<rparr>"
    using c2 cs2 fc2 ins2 by (simp add: aggregate_def Let_def)
  then show ?thesis using out1 e t by simp
qed

lemma agree_gmm_fit: "agree_when_seeded L1 L2 \<Longrightarrow> gmm_fit L1 n X = gmm_fit L2 n X"
  by (simp add: agree_when_seeded_def gmm_fit_def)

lemma agree_bic_loop:
  assumes "agree_when_seeded L1 L2"
  shows "bic_loop L1 X ns best = bic_loop L2 X ns best"
proof (induction ns arbitrary: best)
  case Nil
  then show ?case by simp
next
  case (Cons n ns)
  have b: "gmm_bic L1 = gmm_bic L2" using assms by (simp add: agree_when_seeded_def)
  show ?case
    by (simp add: agree_gmm_fit[OF assms] b Cons.IH Let_def split: option.splits)
qed

lemma agree_fit_lognorm:
  assumes "agree_when_seeded L1 L2"
  shows "fit_lognorm L1 signal = fit_lognorm L2 signal"
proof -
  have f: "percentile L1 = percentile L2" "gmm_means L1 = gmm_means L2"
    "gmm_covariances L1 = gmm_covariances L2" "lognorm_fit L1 = lognorm_fit L2"
    using assms by (simp_all add: agree_when_seeded_def)
  show ?thesis
    unfolding fit_lognorm_def agree_bic_loop[OF assms] f ..
qed

lemma agree_estimate_threshold:
  assumes "agree_when_seeded L1 L2"
  shows "estimate_threshold L1 bt signal = estimate_threshold L2 bt signal"
proof -
  have f: "lognorm_ppf L1 = lognorm_ppf L2" "lognorm_pdf L1 = lognorm_pdf L2" "fmin L1 = fmin L2"
    using assms by (simp_all add: agree_when_seeded_def)
  show ?thesis
    unfolding estimate_threshold_def agree_fit_lognorm[OF assms] f ..
qed

lemma agree_estimate_thresholds:
  assumes "agree_when_seeded L1 L2"
  shows "estimate_thresholds L1 bt background_sig conds st = estimate_thresholds L2 bt background_sig conds st"
  by (induction conds arbitrary: st)
     (simp_all add: agree_estimate_threshold[OF assms] split: option.splits sum.splits)

lemma agree_fit_null_model:
  assumes "agree_when_seeded L1 L2"
  shows "fit_null_model L1 pseudo b1 b2 s1 s2 gcs = fit_null_model L2 pseudo b1 b2 s1 s2 gcs"
  unfolding fit_null_model_def agree_bic_loop[OF assms] ..

lemma agree_fit_null_models:
  assumes "agree_when_seeded L1 L2"
  shows "fit_null_models L1 pseudo background_sig gcs comps params
       = fit_null_models L2 pseudo background_sig gcs comps params"
proof (induction comps arbitrary: params)
  case Nil
  then show ?case by simp
next
  case (Cons c comps)
  obtain b1 b2 where c: "c = (b1, b2)" by (cases c)
  show ?case
    unfolding c fit_null_models.simps agree_fit_null_model[OF assms] Cons.IH ..
qed

lemma agree_fit_models:
  assumes "agree_when_seeded L1 L2"
  shows "fit_models L1 E a = fit_models L2 E a"
  unfolding fit_models_def agree_estimate_thresholds[OF assms] agree_fit_null_models[OF assms] ..

text \<open>
  Claim C9, amended. Two runs on identical inputs are two processes: they can differ in
  the interpreter's string hash and in the state of the random generator, from which the
  library draws for a fit without a seed. The program seeds both of its fits. So, if the
  library agrees between the two processes wherever a fit is given a seed, and one run
  completes, then so does the other, with identical thresholds, pseudocount and null
  models, identical distance output, and result tables with the same columns and the
  same rows; the order of the rows is that of \<^verbatim>\<open>list(set(...))\<close> and may differ.
\<close>

theorem run_reproducible_up_to_row_order:
  assumes same_library: "agree_when_seeded L1 L2"
    and run1: "run_bindetect L1 (E\<lparr>str_hash := h1\<rparr>) a = Inr out1"
  shows "\<exists>out2. run_bindetect L2 (E\<lparr>str_hash := h2\<rparr>) a = Inr out2
           \<and> fit_thresholds (out_models out2) = fit_thresholds (out_models out1)
           \<and> fit_pseudo (out_models out2) = fit_pseudo (out_models out1)
           \<and> fit_log2fc_params (out_models out2) = fit_log2fc_params (out_models out1)
           \<and> same_up_to_row_order (out_excel out1) (out_excel out2)
           \<and> same_up_to_row_order (out_table out1) (out_table out2)
           \<and> out_distance out2 = out_distance out1"
proof -
  from run1 obtain m where m: "fit_models L1 E a = Inr m"
    and agg: "aggregate (E\<lparr>str_hash := h1\<rparr>) a m = Inr out1"
    by (auto simp: run_bindetect_def fit_models_str_hash split: sum.splits)
  have m2: "fit_models L2 E a = Inr m"
    using m agree_fit_models[OF same_library, of E a] by simp
  from aggregate_hash[OF agg, of h2] obtain out2 where
    o: "aggregate (E\<lparr>str_hash := h2\<rparr>) a m = Inr out2" "out_models out2 = out_models out1"
       "same_up_to_row_order (out_excel out1) (out_excel out2)"
       "same_up_to_row_order (out_table out1) (out_table out2)"
       "out_distance out2 = out_distance out1"
    by blast
  have "run_bindetect L2 (E\<lparr>str_hash := h2\<rparr>) a = Inr out2"
    using m2 o(1) by (simp add: run_bindetect_def fit_models_str_hash)
  then show ?thesis using o by simp
qed

lemma one_env_hash: "(one_env h)\<lparr>str_hash := h'\<rparr> = one_env h'"
  by (simp add: one_env_def demo_env_def)

lemma demo_libs_agree: "agree_when_seeded demo_lib demo_lib_elsewhere"
  by (simp add: agree_when_seeded_def demo_lib_elsewhere_def)

lemma demo_libs_differ:
  "GaussianMixture_fit demo_lib None 2 [[0], [0]] = Some 2
   \<and> GaussianMixture_fit demo_lib_elsewhere None 2 [[0], [0]] = Some 3"
  by (simp add: demo_lib_elsewhere_def demo_lib_def)

theorem run_reproducible_up_to_row_order_witness:
  "agree_when_seeded demo_lib demo_lib_elsewhere
   \<and> GaussianMixture_fit demo_lib None 2 [[0], [0]] = Some 2
   \<and> GaussianMixture_fit demo_lib_elsewhere None 2 [[0], [0]] = Some 3
   \<and> (\<exists>out1 out2. run_bindetect demo_lib (one_env hash_A_first) one_args = Inr out1
     \<and> run_bindetect demo_lib_elsewhere (one_env hash_B_first) one_args = Inr out2
     \<and> fit_thresholds (out_models out2) = fit_thresholds (out_models out1)
     \<and> fit_pseudo (out_models out2) = fit_pseudo (out_models out1)
     \<and> fit_log2fc_params (out_models out2) = fit_log2fc_params (out_models out1)
     \<and> same_up_to_row_order (out_excel out1) (out_excel out2)
     \<and> same_up_to_row_order (out_table out1) (out_table out2)
     \<and> out_distance out2 = out_distance out1)"
proof -
  obtain out1 where out1: "run_bindetect demo_lib (one_env hash_A_first) one_args = Inr out1"
    by (simp add: run_bindetect_def one_fit one_aggregate_A)
  then have "run_bindetect demo_lib ((one_env hash_A_first)\<lparr>str_hash := hash_A_first\<rparr>) one_args = Inr out1"
    by (simp add: one_env_hash)
  from run_reproducible_up_to_row_order [OF demo_libs_agree this, of hash_B_first] out1
  show ?thesis using demo_libs_agree demo_libs_differ by (auto simp: one_env_hash)
qed

text \<open>
  Claim C9 as stated, with the order of the TF names included, fails: the same run
  under a hash that lists A first and under one that lists B first gives the rows in
  the orders A, B and B, A.
\<close>

theorem row_order_counterexample:
  "map_sum id (\<lambda>out. map fst (rows (out_table out)))
     (run_bindetect demo_lib (one_env hash_A_first) one_args) = Inr [''A'', ''B'']
   \<and> map_sum id (\<lambda>out. map fst (rows (out_table out)))
     (run_bindetect demo_lib (one_env hash_B_first) one_args) = Inr [''B'', ''A'']
   \<and> run_bindetect demo_lib (one_env hash_A_first) one_args
       \<noteq> run_bindetect demo_lib (one_env hash_B_first) one_args"
  by (simp add: run_bindetect_def one_fit one_aggregate_A one_aggregate_B)

end
